theory Spec2Isabelle
  imports Complex_Main "HOL-Library.AList"
begin

section \<open>Python and pandas values\<close>

text \<open>
  The program is \<^verbatim>\<open>preprocessor.py\<close>: class \<^verbatim>\<open>SQLPreprocessor\<close> with the methods
  \<^verbatim>\<open>extract_tables\<close>, \<^verbatim>\<open>clean_dataframe\<close> and \<^verbatim>\<open>export_preprocessed_data\<close>.
  It works on pandas DataFrames, so the embedding starts with the values a DataFrame
  holds. A Python float is a finite value, an infinity or NaN; no arithmetic is done on
  floats by the program, so a finite float is kept as the rational it denotes.
\<close>

datatype pyfloat = Finite rat | PosInf | NegInf | NaN

text \<open>A \<^verbatim>\<open>pandas.Timestamp\<close>: a calendar date and a time of day.\<close>

record timestamp =
  year :: nat
  month :: nat
  day :: nat
  hour :: nat
  minute :: nat
  second :: nat
  nanosecond :: nat

text \<open>
  The Python objects that occur as cells: \<^verbatim>\<open>None\<close>, \<^verbatim>\<open>pd.NA\<close>, \<^verbatim>\<open>pd.NaT\<close>, int, float,
  bool, str, bytes and Timestamp.
\<close>

datatype pyobj =
    PyNone
  | PdNA
  | PdNaT
  | PyInt int
  | PyFloat pyfloat
  | PyBool bool
  | PyStr string
  | PyBytes "nat list"
  | PdTimestamp timestamp

text \<open>
  A column is a typed array, as a pandas block is: an \<^verbatim>\<open>int64\<close> array holds only
  integers, a \<^verbatim>\<open>float64\<close> array floats (NaN is its missing value), a \<^verbatim>\<open>bool\<close> array
  booleans, a \<^verbatim>\<open>datetime64[ns]\<close> array timestamps or NaT (\<open>None\<close> here), and an
  \<^verbatim>\<open>object\<close> array any Python objects.
\<close>

datatype series =
    Int64 "int list"
  | Float64 "pyfloat list"
  | Bool "bool list"
  | Datetime64 "timestamp option list"
  | Object "pyobj list"

text \<open>A DataFrame: the length of its index and its labelled columns, in order.\<close>

record dataframe =
  nrows :: nat
  columns :: "(string \<times> series) list"

text \<open>A record of \<^verbatim>\<open>to_dict(orient='records')\<close>: a dict, kept in insertion order.\<close>

type_synonym pyrecord = "(string \<times> pyobj) list"

datatype py_error =
    AttributeError
  | KeyError
  | TypeError
  | OSError
  | DatabaseError

fun series_len :: "series \<Rightarrow> nat" where
  "series_len (Int64 xs) = length xs"
| "series_len (Float64 xs) = length xs"
| "series_len (Bool xs) = length xs"
| "series_len (Datetime64 xs) = length xs"
| "series_len (Object xs) = length xs"

text \<open>
  The Python objects a column yields when it is iterated or converted to
  \<^verbatim>\<open>object\<close>: native ints, floats and bools, Timestamps, and NaT.
\<close>

fun box_datetime :: "timestamp option \<Rightarrow> pyobj" where
  "box_datetime None = PdNaT"
| "box_datetime (Some t) = PdTimestamp t"

fun to_objects :: "series \<Rightarrow> pyobj list" where
  "to_objects (Int64 xs) = map PyInt xs"
| "to_objects (Float64 xs) = map PyFloat xs"
| "to_objects (Bool xs) = map PyBool xs"
| "to_objects (Datetime64 xs) = map box_datetime xs"
| "to_objects (Object xs) = xs"

text \<open>
  \<^verbatim>\<open>pd.isna\<close> on one value: \<^verbatim>\<open>None\<close>, \<^verbatim>\<open>pd.NA\<close>, \<^verbatim>\<open>pd.NaT\<close> and the float NaN are
  missing. An infinity is not.
\<close>

fun isna :: "pyobj \<Rightarrow> bool" where
  "isna PyNone = True"
| "isna PdNA = True"
| "isna PdNaT = True"
| "isna (PyFloat NaN) = True"
| "isna _ = False"

fun is_infinite :: "pyobj \<Rightarrow> bool" where
  "is_infinite (PyFloat PosInf) = True"
| "is_infinite (PyFloat NegInf) = True"
| "is_infinite _ = False"

text \<open>The zero that stands for a missing value: the int 0, or 0.0 in a float column.\<close>

fun is_zero :: "pyobj \<Rightarrow> bool" where
  "is_zero (PyInt n) = (n = 0)"
| "is_zero (PyFloat (Finite q)) = (q = 0)"
| "is_zero _ = False"

section \<open>The Cleaner: \<^verbatim>\<open>clean_dataframe\<close>\<close>

text \<open>
  \<^verbatim>\<open>df.replace([pd.NA, pd.NaT, None], 0)\<close>, column by column. An \<^verbatim>\<open>int64\<close> or \<^verbatim>\<open>bool\<close>
  array cannot hold a missing value, so nothing is replaced there. A \<^verbatim>\<open>float64\<close>
  array takes the 0 as the float 0.0 in place of each NaN. An \<^verbatim>\<open>object\<close> array takes
  the int 0 in place of each missing object. A \<^verbatim>\<open>datetime64\<close> array cannot hold 0:
  when it has a NaT, the column is converted to \<^verbatim>\<open>object\<close> (its values become
  Timestamp objects) and the int 0 replaces each NaT; with no NaT it stays as it is.
  An \<^verbatim>\<open>object\<close> column stays an \<^verbatim>\<open>object\<close> column here, as in pandas from 3.0; the
  inference of a narrower dtype that pandas before 3.0 makes after \<^verbatim>\<open>replace\<close> is not
  part of this definition (see \<open>inference_free\<close> below for the batches on which the
  two agree).
\<close>

definition fill_float :: "pyfloat \<Rightarrow> pyfloat" where
  "fill_float x = (if x = NaN then Finite 0 else x)"

definition fill_object :: "pyobj \<Rightarrow> pyobj" where
  "fill_object v = (if isna v then PyInt 0 else v)"

fun replace_missing :: "series \<Rightarrow> series" where
  "replace_missing (Int64 xs) = Int64 xs"
| "replace_missing (Float64 xs) = Float64 (map fill_float xs)"
| "replace_missing (Bool xs) = Bool xs"
| "replace_missing (Datetime64 xs) =
     (if None \<in> set xs then Object (map fill_object (map box_datetime xs))
      else Datetime64 xs)"
| "replace_missing (Object xs) = Object (map fill_object xs)"

definition df_replace :: "dataframe \<Rightarrow> dataframe" where
  "df_replace df = df\<lparr>columns := map (\<lambda>(name, s). (name, replace_missing s)) (columns df)\<rparr>"

text \<open>
  \<^verbatim>\<open>pd.notnull(df)\<close> is the mask of the cells that are not missing, and
  \<^verbatim>\<open>df.where(mask, 0)\<close> keeps a cell where the mask holds and puts 0 elsewhere. A column
  whose mask holds everywhere is returned as it is; otherwise the 0 is stored as in
  \<^verbatim>\<open>replace\<close>: 0.0 in a \<^verbatim>\<open>float64\<close> array, and the int 0 in an \<^verbatim>\<open>object\<close> array, to
  which a column that cannot hold 0 is converted first.
\<close>

definition notnull :: "series \<Rightarrow> bool list" where
  "notnull s = map (\<lambda>v. \<not> isna v) (to_objects s)"

definition put_zero :: "bool list \<Rightarrow> pyobj list \<Rightarrow> pyobj list" where
  "put_zero cond xs = map (\<lambda>(keep, v). if keep then v else PyInt 0) (zip cond xs)"

fun where_zero :: "series \<Rightarrow> bool list \<Rightarrow> series" where
  "where_zero (Float64 xs) cond =
     (if list_all id cond then Float64 xs
      else Float64 (map (\<lambda>(keep, x). if keep then x else Finite 0) (zip cond xs)))"
| "where_zero (Int64 xs) cond =
     (if list_all id cond then Int64 xs
      else Int64 (map (\<lambda>(keep, x). if keep then x else 0) (zip cond xs)))"
| "where_zero s cond =
     (if list_all id cond then s else Object (put_zero cond (to_objects s)))"

definition df_where_notnull :: "dataframe \<Rightarrow> dataframe" where
  "df_where_notnull df =
     df\<lparr>columns := map (\<lambda>(name, s). (name, where_zero s (notnull s))) (columns df)\<rparr>"

text \<open>
  \<^verbatim>\<open>df.select_dtypes(include=['datetime64']).columns\<close>: the labels of the columns whose
  dtype is \<^verbatim>\<open>datetime64\<close>, in column order.
\<close>

fun is_datetime64 :: "series \<Rightarrow> bool" where
  "is_datetime64 (Datetime64 xs) = True"
| "is_datetime64 _ = False"

definition select_dtypes_datetime64 :: "dataframe \<Rightarrow> string list" where
  "select_dtypes_datetime64 df = map fst (filter (\<lambda>(name, s). is_datetime64 s) (columns df))"

text \<open>
  \<^verbatim>\<open>strftime('%Y-%m-%d')\<close>: the year in four digits, the month and the day in two,
  joined by hyphens. The digits are those of a year from 1000 to 9999, which covers the
  range of \<^verbatim>\<open>datetime64[ns]\<close> (1677 to 2262); an earlier year, which only a coarser
  resolution can hold, is not padded to four digits on every platform.
\<close>

definition digit :: "nat \<Rightarrow> char" where
  "digit n = ''0123456789'' ! (n mod 10)"

definition strftime_Ymd :: "timestamp \<Rightarrow> string" where
  "strftime_Ymd t =
     [digit (year t div 1000), digit (year t div 100), digit (year t div 10), digit (year t)]
     @ ''-'' @ [digit (month t div 10), digit (month t)]
     @ ''-'' @ [digit (day t div 10), digit (day t)]"

text \<open>
  \<^verbatim>\<open>series.dt.strftime(fmt)\<close>: the \<^verbatim>\<open>.dt\<close> accessor exists only on a datetime-like
  column (AttributeError otherwise); the result is an \<^verbatim>\<open>object\<close> column of strings, with
  NaN where the value is NaT.
\<close>

fun strftime_value :: "timestamp option \<Rightarrow> pyobj" where
  "strftime_value None = PyFloat NaN"
| "strftime_value (Some t) = PyStr (strftime_Ymd t)"

fun dt_strftime :: "series \<Rightarrow> py_error + series" where
  "dt_strftime (Datetime64 xs) = Inr (Object (map strftime_value xs))"
| "dt_strftime _ = Inl AttributeError"

text \<open>
  \<^verbatim>\<open>df[col]\<close> reads the column labelled \<^verbatim>\<open>col\<close>. With no such label it raises KeyError.
  With the label on several columns it returns a DataFrame, which has no \<^verbatim>\<open>.dt\<close>:
  the attribute access in the loop body then raises AttributeError.
  \<^verbatim>\<open>df[col] = s\<close> stores \<^verbatim>\<open>s\<close> under the label.
\<close>

definition getitem_dt_strftime :: "dataframe \<Rightarrow> string \<Rightarrow> py_error + series" where
  "getitem_dt_strftime df col =
     (case filter (\<lambda>(name, s). name = col) (columns df) of
        [] \<Rightarrow> Inl KeyError
      | [(name, s)] \<Rightarrow> dt_strftime s
      | _ \<Rightarrow> Inl AttributeError)"

definition setitem :: "dataframe \<Rightarrow> string \<Rightarrow> series \<Rightarrow> dataframe" where
  "setitem df col s' =
     df\<lparr>columns := map (\<lambda>(name, s). if name = col then (name, s') else (name, s)) (columns df)\<rparr>"

text \<open>The loop \<^verbatim>\<open>for col in date_columns: df[col] = df[col].dt.strftime('%Y-%m-%d')\<close>.\<close>

fun format_date_columns :: "string list \<Rightarrow> dataframe \<Rightarrow> py_error + dataframe" where
  "format_date_columns [] df = Inr df"
| "format_date_columns (col # cols) df =
     (case getitem_dt_strftime df col of
        Inl e \<Rightarrow> Inl e
      | Inr s \<Rightarrow> format_date_columns cols (setitem df col s))"

definition clean_dataframe :: "dataframe \<Rightarrow> py_error + dataframe" where
  "clean_dataframe df0 =
     (let df1 = df_replace df0;
          df2 = df_where_notnull df1;
          date_columns = select_dtypes_datetime64 df2
      in format_date_columns date_columns df2)"

text \<open>
  \<^verbatim>\<open>df.to_dict(orient='records')\<close>: one dict per row, with the columns' labels as keys
  in column order and the row's values as Python objects. A label that occurs twice
  keeps its first place and its last value, as a dict does.
\<close>

definition py_dict :: "(string \<times> 'v) list \<Rightarrow> (string \<times> 'v) list" where
  "py_dict kvs = fold (\<lambda>(k, v) d. AList.update k v d) kvs []"

definition to_dict_records :: "dataframe \<Rightarrow> pyrecord list" where
  "to_dict_records df =
     map (\<lambda>i. py_dict (map (\<lambda>(name, s). (name, to_objects s ! i)) (columns df))) [0..<nrows df]"

text \<open>A DataFrame is well formed when every column has the length of the index and
  the labels are distinct.\<close>

definition wf_dataframe :: "dataframe \<Rightarrow> bool" where
  "wf_dataframe df =
     (list_all (\<lambda>(name, s). series_len s = nrows df) (columns df)
      \<and> distinct (map fst (columns df)))"

section \<open>The Extractor: \<^verbatim>\<open>extract_tables\<close>\<close>

text \<open>
  The source is an SQLite database read through \<^verbatim>\<open>sqlite3\<close>. A stored value has one
  of five storage classes; \<^verbatim>\<open>sqlite3\<close> hands it to Python as \<^verbatim>\<open>None\<close>, int, float, str
  or bytes. SQLite stores a NaN as NULL, so a REAL that is read is never NaN.
\<close>

datatype sqlval =
    SqlNull
  | SqlInteger int
  | SqlReal pyfloat
  | SqlText string
  | SqlBlob "nat list"

fun py_of_sql :: "sqlval \<Rightarrow> pyobj" where
  "py_of_sql SqlNull = PyNone"
| "py_of_sql (SqlInteger i) = PyInt i"
| "py_of_sql (SqlReal x) = PyFloat x"
| "py_of_sql (SqlText t) = PyStr t"
| "py_of_sql (SqlBlob b) = PyBytes b"

text \<open>
  An executed \<^verbatim>\<open>SELECT * FROM table\<close>: the column names of the cursor's description
  and the rows in storage order, each row a list with one value per column.
\<close>

record cursor =
  description :: "string list"
  fetched_rows :: "sqlval list list"

definition wf_cursor :: "cursor \<Rightarrow> bool" where
  "wf_cursor cur =
     (distinct (description cur)
      \<and> list_all (\<lambda>row. length row = length (description cur)
                         \<and> list_all (\<lambda>v. v \<noteq> SqlReal NaN) row) (fetched_rows cur))"

text \<open>
  The conversion of a Python int to a \<^verbatim>\<open>float64\<close>: exact below \<open>2^53\<close>, and rounded to
  53 significant bits (ties to even) above. SQLite integers are below \<open>2^63\<close>, so the
  result is always finite.
\<close>

fun bit_length :: "nat \<Rightarrow> nat" where
  "bit_length n = (if n = 0 then 0 else Suc (bit_length (n div 2)))"

definition round53 :: "nat \<Rightarrow> nat" where
  "round53 a =
     (if a < 2 ^ 53 then a
      else let k = bit_length a - 53;
               q = a div 2 ^ k;
               r = a mod 2 ^ k;
               h = 2 ^ (k - 1)
           in (if h < r \<or> (r = h \<and> odd q) then q + 1 else q) * 2 ^ k)"

definition float_of_int :: "int \<Rightarrow> pyfloat" where
  "float_of_int i = Finite (of_int (sgn i * int (round53 (nat \<bar>i\<bar>))))"

text \<open>
  \<^verbatim>\<open>DataFrame.from_records(data, columns=columns, coerce_float=True)\<close>, which
  \<^verbatim>\<open>read_sql_query\<close> applies to every batch of fetched rows, infers the dtype of each
  column from the values of that batch alone: all integers give \<^verbatim>\<open>int64\<close>; integers,
  floats and \<^verbatim>\<open>None\<close> with at least one number give \<^verbatim>\<open>float64\<close>, with the integers
  converted to floats and \<^verbatim>\<open>None\<close> to NaN; anything else (a str or bytes among the
  values, only \<^verbatim>\<open>None\<close>, or no rows at all) stays an \<^verbatim>\<open>object\<close> column of the Python
  values.
\<close>

fun is_integer :: "sqlval \<Rightarrow> bool" where
  "is_integer (SqlInteger i) = True"
| "is_integer _ = False"

fun is_number :: "sqlval \<Rightarrow> bool" where
  "is_number (SqlInteger i) = True"
| "is_number (SqlReal x) = True"
| "is_number _ = False"

fun is_number_or_null :: "sqlval \<Rightarrow> bool" where
  "is_number_or_null (SqlText t) = False"
| "is_number_or_null (SqlBlob b) = False"
| "is_number_or_null _ = True"

fun integer_value :: "sqlval \<Rightarrow> int" where
  "integer_value (SqlInteger i) = i"
| "integer_value _ = 0"

fun float_value :: "sqlval \<Rightarrow> pyfloat" where
  "float_value (SqlInteger i) = float_of_int i"
| "float_value (SqlReal x) = x"
| "float_value _ = NaN"

definition column_of_values :: "sqlval list \<Rightarrow> series" where
  "column_of_values vs =
     (if vs \<noteq> [] \<and> list_all is_integer vs then Int64 (map integer_value vs)
      else if list_all is_number_or_null vs \<and> list_ex is_number vs
        then Float64 (map float_value vs)
      else Object (map py_of_sql vs))"

definition from_records :: "string list \<Rightarrow> sqlval list list \<Rightarrow> dataframe" where
  "from_records names data =
     \<lparr>nrows = length data,
      columns = map (\<lambda>(j, name). (name, column_of_values (map (\<lambda>row. row ! j) data)))
                    (enumerate 0 names)\<rparr>"

text \<open>
  \<^verbatim>\<open>cursor.fetchmany(chunksize)\<close>, called until it returns no rows: the rows in
  batches of \<^verbatim>\<open>chunksize\<close>, the last one possibly shorter. (With \<^verbatim>\<open>chunksize\<close> 0 the
  \<^verbatim>\<open>sqlite3\<close> cursor returns all remaining rows at once.)
\<close>

function fetch_chunks :: "nat \<Rightarrow> 'a list \<Rightarrow> 'a list list" where
  "fetch_chunks n rows =
     (if rows = [] then []
      else if n = 0 then [rows]
      else take n rows # fetch_chunks n (drop n rows))"
  by pat_completeness auto
termination
  by (relation "measure (\<lambda>(n, rows). length rows)") auto

declare fetch_chunks.simps [simp del]

text \<open>
  The iterator of \<^verbatim>\<open>pd.read_sql_query(sql, conn, chunksize=chunksize)\<close>: one DataFrame
  per batch, and one empty DataFrame when the table has no rows. Reading can fail:
  \<open>fault = Some k\<close> says that the fetch number \<open>k\<close> (from 0) raises. The DataFrames of
  the batches fetched before it have been yielded by then.
\<close>

definition read_sql_query_chunks ::
    "nat \<Rightarrow> nat option \<Rightarrow> cursor \<Rightarrow> (py_error + dataframe) list" where
  "read_sql_query_chunks chunksize fault cur =
     (let batches = fetch_chunks chunksize (fetched_rows cur);
          frames = (if batches = [] then [from_records (description cur) []]
                    else map (from_records (description cur)) batches)
      in case fault of
           None \<Rightarrow> map Inr frames
         | Some k \<Rightarrow>
             if k \<le> length batches
             then map Inr (map (from_records (description cur)) (take k batches))
                  @ [Inl DatabaseError]
             else map Inr frames)"

text \<open>
  The open connection, as the program sees it: what the row-count query on a table
  gives, what executing \<^verbatim>\<open>SELECT * FROM table\<close> gives (an error when the table does
  not exist), and whether a fetch of that table fails.
\<close>

record database =
  count_star :: "string \<Rightarrow> py_error + int"
  select_star :: "string \<Rightarrow> py_error + cursor"
  fetch_fault :: "string \<Rightarrow> nat option"

text \<open>The lines the program logs, kept as data.\<close>

datatype log_msg =
    ProcessingTable string
  | TotalRows string int
  | ProcessedRows nat string
  | ExportedRecords nat string

text \<open>
  The inner loop: \<^verbatim>\<open>for chunk in pd.read_sql_query(...): chunk = self.clean_dataframe(chunk);
  processed_records.extend(chunk.to_dict(orient='records'))\<close>, with the progress line.
\<close>

fun process_chunks ::
    "string \<Rightarrow> (py_error + dataframe) list \<Rightarrow> pyrecord list \<Rightarrow> log_msg list
     \<Rightarrow> (py_error + pyrecord list) \<times> log_msg list" where
  "process_chunks table [] processed_records msgs = (Inr processed_records, msgs)"
| "process_chunks table (Inl e # rest) processed_records msgs = (Inl e, msgs)"
| "process_chunks table (Inr chunk # rest) processed_records msgs =
     (case clean_dataframe chunk of
        Inl e \<Rightarrow> (Inl e, msgs)
      | Inr cleaned \<Rightarrow>
          (let records = processed_records @ to_dict_records cleaned
           in process_chunks table rest records
                (msgs @ [ProcessedRows (length records) table])))"

text \<open>The body of the loop over the tables, up to the assignment to \<^verbatim>\<open>processed_data\<close>.\<close>

definition extract_table ::
    "database \<Rightarrow> nat \<Rightarrow> string \<Rightarrow> log_msg list \<Rightarrow> (py_error + pyrecord list) \<times> log_msg list" where
  "extract_table db chunk_size table msgs =
     (let msgs1 = msgs @ [ProcessingTable table]
      in case count_star db table of
           Inl e \<Rightarrow> (Inl e, msgs1)
         | Inr total_rows \<Rightarrow>
             (let msgs2 = msgs1 @ [TotalRows table total_rows]
              in case select_star db table of
                   Inl e \<Rightarrow> (Inl e, msgs2)
                 | Inr cur \<Rightarrow>
                     process_chunks table
                       (read_sql_query_chunks chunk_size (fetch_fault db table) cur) [] msgs2))"

type_synonym processed_data = "(string \<times> pyrecord list) list"

fun extract_loop ::
    "database \<Rightarrow> nat \<Rightarrow> string list \<Rightarrow> processed_data \<Rightarrow> log_msg list
     \<Rightarrow> (py_error + processed_data) \<times> log_msg list" where
  "extract_loop db chunk_size [] processed msgs = (Inr processed, msgs)"
| "extract_loop db chunk_size (table # rest) processed msgs =
     (case extract_table db chunk_size table msgs of
        (Inl e, msgs') \<Rightarrow> (Inl e, msgs')
      | (Inr records, msgs') \<Rightarrow>
          extract_loop db chunk_size rest (AList.update table records processed) msgs')"

text \<open>
  \<^verbatim>\<open>extract_tables\<close>: the result or the exception that leaves the method, whether
  \<^verbatim>\<open>conn.close()\<close> was executed, and the log. The list of tables and the chunk size are
  constants of the method; \<open>extract_tables_with\<close> takes them as arguments.
\<close>

record extraction =
  outcome :: "py_error + processed_data"
  conn_closed :: bool
  logged :: "log_msg list"

definition extract_tables_with :: "database \<Rightarrow> nat \<Rightarrow> string list \<Rightarrow> extraction" where
  "extract_tables_with db chunk_size tables =
     (case extract_loop db chunk_size tables [] [] of
        (Inl e, msgs) \<Rightarrow> \<lparr>outcome = Inl e, conn_closed = False, logged = msgs\<rparr>
      | (Inr processed, msgs) \<Rightarrow> \<lparr>outcome = Inr processed, conn_closed = True, logged = msgs\<rparr>)"

definition table_names :: "string list" where
  "table_names = [''tb_emr_surgery_info'', ''tb_encounter'', ''tb_person_mtr'',
                  ''tb_mig_implant_description'']"

definition extract_tables :: "database \<Rightarrow> extraction" where
  "extract_tables db = extract_tables_with db 100000 table_names"

section \<open>The Exporter: \<^verbatim>\<open>export_preprocessed_data\<close>\<close>

text \<open>
  The file system, as the program sees it: whether \<^verbatim>\<open>os.makedirs\<close> succeeds, whether a
  path can be opened for writing, and whether the data written to it reaches the file.
\<close>

record os_env =
  makedirs_ok :: bool
  open_ok :: "string \<Rightarrow> bool"
  write_ok :: "string \<Rightarrow> bool"

text \<open>
  What a file holds after the run: the JSON array of a dataset, the fixed text of the
  marker, or an incomplete output (the file was opened, and writing it raised).
\<close>

datatype file_content =
    JsonArray "pyrecord list"
  | MarkerText string
  | Incomplete

text \<open>
  \<^verbatim>\<open>json.dump\<close> writes \<^verbatim>\<open>None\<close>, int, float (NaN and the infinities too, by default),
  bool and str; on any other object it raises TypeError.
\<close>

fun json_serializable :: "pyobj \<Rightarrow> bool" where
  "json_serializable PyNone = True"
| "json_serializable (PyInt i) = True"
| "json_serializable (PyFloat x) = True"
| "json_serializable (PyBool b) = True"
| "json_serializable (PyStr s) = True"
| "json_serializable _ = False"

definition dataset_serializable :: "pyrecord list \<Rightarrow> bool" where
  "dataset_serializable data = list_all (\<lambda>r. list_all (\<lambda>(k, v). json_serializable v) r) data"

definition os_path_join :: "string \<Rightarrow> string \<Rightarrow> string" where
  "os_path_join a b =
     (if b \<noteq> [] \<and> hd b = CHR ''/'' then b
      else if a = [] \<or> last a = CHR ''/'' then a @ b
      else a @ ''/'' @ b)"

definition output_dir :: string where
  "output_dir = ''intermediate''"

definition output_file :: "string \<Rightarrow> string" where
  "output_file table = os_path_join output_dir (table @ ''_preprocessed.json'')"

definition marker_file :: string where
  "marker_file = os_path_join output_dir ''preprocessing_complete.txt''"

record export_state =
  files_written :: "(string \<times> file_content) list"
  export_logged :: "log_msg list"

text \<open>
  One turn of \<^verbatim>\<open>for table, data in processed_data.items()\<close>: open the file, dump the
  dataset, log the line.
\<close>

definition export_table ::
    "os_env \<Rightarrow> string \<Rightarrow> pyrecord list \<Rightarrow> export_state \<Rightarrow> (py_error + unit) \<times> export_state" where
  "export_table env table data st =
     (if \<not> open_ok env (output_file table) then (Inl OSError, st)
      else if \<not> dataset_serializable data
        then (Inl TypeError,
              st\<lparr>files_written := files_written st @ [(output_file table, Incomplete)]\<rparr>)
      else if \<not> write_ok env (output_file table)
        then (Inl OSError,
              st\<lparr>files_written := files_written st @ [(output_file table, Incomplete)]\<rparr>)
      else (Inr (),
            st\<lparr>files_written := files_written st @ [(output_file table, JsonArray data)],
               export_logged := export_logged st
                  @ [ExportedRecords (length data) (output_file table)]\<rparr>))"

fun export_loop ::
    "os_env \<Rightarrow> processed_data \<Rightarrow> export_state \<Rightarrow> (py_error + unit) \<times> export_state" where
  "export_loop env [] st = (Inr (), st)"
| "export_loop env ((table, data) # rest) st =
     (case export_table env table data st of
        (Inl e, st') \<Rightarrow> (Inl e, st')
      | (Inr u, st') \<Rightarrow> export_loop env rest st')"

definition write_marker :: "os_env \<Rightarrow> export_state \<Rightarrow> (py_error + bool) \<times> export_state" where
  "write_marker env st =
     (if \<not> open_ok env marker_file then (Inl OSError, st)
      else if \<not> write_ok env marker_file
        then (Inl OSError, st\<lparr>files_written := files_written st @ [(marker_file, Incomplete)]\<rparr>)
      else (Inr True,
            st\<lparr>files_written := files_written st
                 @ [(marker_file, MarkerText ''Preprocessing completed successfully'')]\<rparr>))"

definition export_preprocessed_data ::
    "os_env \<Rightarrow> processed_data \<Rightarrow> (py_error + bool) \<times> export_state" where
  "export_preprocessed_data env processed =
     (let st0 = \<lparr>files_written = [], export_logged = []\<rparr>
      in if \<not> makedirs_ok env then (Inl OSError, st0)
         else case export_loop env processed st0 of
                (Inl e, st) \<Rightarrow> (Inl e, st)
              | (Inr u, st) \<Rightarrow> write_marker env st)"

definition marker_written :: "export_state \<Rightarrow> bool" where
  "marker_written st = (marker_file \<in> fst ` set (files_written st))"

text \<open>A table's file is written successfully: it can be opened, its dataset can be
  serialized, and the writing succeeds.\<close>

definition table_export_ok :: "os_env \<Rightarrow> string \<times> pyrecord list \<Rightarrow> bool" where
  "table_export_ok env item =
     (open_ok env (output_file (fst item)) \<and> dataset_serializable (snd item)
      \<and> write_ok env (output_file (fst item)))"

section \<open>The Extractor, row by row\<close>

text \<open>
  How an output value may stand for a stored value: NULL as a zero, an INTEGER as the
  same int or as the float it converts to, a REAL, a TEXT and a BLOB as the same float,
  str and bytes. A record stands for a row when its keys are the column names, in order,
  and each value stands for the row's value in that column.
\<close>

fun cell_matches :: "sqlval \<Rightarrow> pyobj \<Rightarrow> bool" where
  "cell_matches SqlNull v = is_zero v"
| "cell_matches (SqlInteger i) v = (v = PyInt i \<or> v = PyFloat (float_of_int i))"
| "cell_matches (SqlReal x) v = (v = PyFloat x)"
| "cell_matches (SqlText t) v = (v = PyStr t)"
| "cell_matches (SqlBlob b) v = (v = PyBytes b)"

definition row_matches :: "string list \<Rightarrow> sqlval list \<Rightarrow> pyrecord \<Rightarrow> bool" where
  "row_matches names row r = (map fst r = names \<and> list_all2 cell_matches row (map snd r))"

text \<open>
  The reading of a table raises: the row-count query fails, the \<^verbatim>\<open>SELECT *\<close> fails, or
  one of the fetches that the iteration makes fails.
\<close>

definition read_raises :: "database \<Rightarrow> nat \<Rightarrow> string \<Rightarrow> bool" where
  "read_raises db chunk_size table =
     (case count_star db table of
        Inl e \<Rightarrow> True
      | Inr total_rows \<Rightarrow>
          (case select_star db table of
             Inl e \<Rightarrow> True
           | Inr cur \<Rightarrow>
               (case fetch_fault db table of
                  None \<Rightarrow> False
                | Some k \<Rightarrow> k \<le> length (fetch_chunks chunk_size (fetched_rows cur)))))"

text \<open>
  A column is stable when at most one of the storage classes NULL, INTEGER and REAL
  occurs in it (TEXT and BLOB may occur beside it): then every batch of its values is
  given a dtype under which each value is output the same way, \<open>stable_cell\<close>.
\<close>

fun is_null :: "sqlval \<Rightarrow> bool" where
  "is_null SqlNull = True"
| "is_null _ = False"

fun is_real :: "sqlval \<Rightarrow> bool" where
  "is_real (SqlReal x) = True"
| "is_real _ = False"

definition numeric_classes :: "sqlval list \<Rightarrow> nat" where
  "numeric_classes vs =
     (if list_ex is_null vs then 1 else 0) + (if list_ex is_integer vs then 1 else 0)
     + (if list_ex is_real vs then 1 else 0)"

definition column_values :: "cursor \<Rightarrow> nat \<Rightarrow> sqlval list" where
  "column_values cur j = map (\<lambda>row. row ! j) (fetched_rows cur)"

definition stable_columns :: "cursor \<Rightarrow> bool" where
  "stable_columns cur =
     list_all (\<lambda>j. numeric_classes (column_values cur j) \<le> 1) [0..<length (description cur)]"

fun stable_cell :: "sqlval \<Rightarrow> pyobj" where
  "stable_cell SqlNull = PyInt 0"
| "stable_cell v = py_of_sql v"

section \<open>The Cleaner, cell by cell\<close>

text \<open>
  What the steps of \<^verbatim>\<open>clean_dataframe\<close> amount to on one column (\<open>clean_series\<close>) and
  on one cell of it (\<open>clean_cell\<close>); the lemmas below prove that the method computes
  them. \<open>cellwise R df df'\<close> says that the two frames have the same number of rows
  and the same labels in the same order, and that \<open>R\<close> relates every cell of \<open>df\<close> to
  the cell of \<open>df'\<close> in its place; \<open>all_cells P df\<close> says that \<open>P\<close> holds of every cell.
\<close>

definition format_series :: "series \<Rightarrow> series" where
  "format_series s = (case s of Datetime64 xs \<Rightarrow> Object (map strftime_value xs) | _ \<Rightarrow> s)"

definition clean_series :: "series \<Rightarrow> series" where
  "clean_series s = format_series (replace_missing s)"

definition cleaned :: "dataframe \<Rightarrow> dataframe" where
  "cleaned df = df\<lparr>columns := map (\<lambda>(name, s). (name, clean_series s)) (columns df)\<rparr>"

fun zero_of :: "series \<Rightarrow> pyobj" where
  "zero_of (Float64 xs) = PyFloat (Finite 0)"
| "zero_of _ = PyInt 0"

fun format_cell :: "pyobj \<Rightarrow> pyobj" where
  "format_cell (PdTimestamp t) = PyStr (strftime_Ymd t)"
| "format_cell v = v"

definition clean_cell :: "series \<Rightarrow> pyobj \<Rightarrow> pyobj" where
  "clean_cell s v =
     (if isna v then zero_of s
      else if is_datetime64 s \<and> PdNaT \<notin> set (to_objects s) then format_cell v
      else v)"

definition cellwise :: "(series \<Rightarrow> pyobj \<Rightarrow> pyobj \<Rightarrow> bool) \<Rightarrow> dataframe \<Rightarrow> dataframe \<Rightarrow> bool" where
  "cellwise R df df' =
     (nrows df' = nrows df
      \<and> list_all2 (\<lambda>c c'. fst c' = fst c
                     \<and> list_all2 (R (snd c)) (to_objects (snd c)) (to_objects (snd c')))
           (columns df) (columns df'))"

definition all_cells :: "(pyobj \<Rightarrow> bool) \<Rightarrow> dataframe \<Rightarrow> bool" where
  "all_cells P df = list_all (\<lambda>c. list_all P (to_objects (snd c))) (columns df)"

fun json_representable :: "pyobj \<Rightarrow> bool" where
  "json_representable (PyInt i) = True"
| "json_representable (PyFloat x) = True"
| "json_representable (PyBool b) = True"
| "json_representable (PyStr s) = True"
| "json_representable _ = False"

text \<open>
  The input cells whose output the Cleaner makes a string, a number or a boolean: the
  missing values, the strings, numbers and booleans themselves, and the values of a
  \<^verbatim>\<open>datetime64\<close> column that holds no NaT.
\<close>

definition json_input :: "series \<Rightarrow> pyobj \<Rightarrow> bool" where
  "json_input s v =
     (isna v \<or> json_representable v \<or> (is_datetime64 s \<and> PdNaT \<notin> set (to_objects s)))"

text \<open>
  The model of \<^verbatim>\<open>replace\<close> keeps an \<^verbatim>\<open>object\<close> column an \<^verbatim>\<open>object\<close> column, as pandas
  from 3.0 does. pandas before 3.0 infers the dtype of an \<^verbatim>\<open>object\<close> column anew
  after \<^verbatim>\<open>replace\<close>, which can change a value (the int 7 beside the float 1.5 becomes
  the float 7.0; a column of Timestamps becomes \<^verbatim>\<open>datetime64\<close> and is formatted).
  That inference leaves alone a column that holds a str or a bytes value, and it changes
  no value of a column that holds missing values only (its zeros are the int 0 either
  way). A batch is free of the inference when each of its \<^verbatim>\<open>object\<close> columns is one
  of these two kinds; the statements about values that pass through unchanged are made
  for such batches, on which every version behaves as the model does. Every batch that
  \<^verbatim>\<open>read_sql_query\<close> builds is one (\<open>from_records_inference_free\<close> below).
\<close>

fun is_str_or_bytes :: "pyobj \<Rightarrow> bool" where
  "is_str_or_bytes (PyStr s) = True"
| "is_str_or_bytes (PyBytes b) = True"
| "is_str_or_bytes _ = False"

fun keeps_object :: "series \<Rightarrow> bool" where
  "keeps_object (Object xs) = (list_ex is_str_or_bytes xs \<or> list_all isna xs)"
| "keeps_object _ = True"

definition inference_free :: "dataframe \<Rightarrow> bool" where
  "inference_free df = list_all (\<lambda>c. keeps_object (snd c)) (columns df)"

section \<open>Properties of the Cleaner\<close>

lemma series_len_to_objects: "length (to_objects s) = series_len s"
  by (cases s) simp_all

lemmas cleaner_defs = clean_dataframe_def df_replace_def df_where_notnull_def notnull_def
  select_dtypes_datetime64_def getitem_dt_strftime_def setitem_def Let_def strftime_Ymd_def
  digit_def fill_float_def fill_object_def put_zero_def

lemma isna_PyFloat: "isna (PyFloat x) = (x = NaN)"
  by (cases x) simp_all

lemma isna_box_datetime: "isna (box_datetime x) = (x = None)"
  by (cases x) simp_all

lemma fill_object_notna: "\<not> isna (fill_object v)"
  by (simp add: fill_object_def)

lemma replace_missing_notna: "list_all (\<lambda>v. \<not> isna v) (to_objects (replace_missing s))"
proof (cases s)
  case (Float64 xs)
  then show ?thesis by (auto simp: list_all_iff fill_float_def isna_PyFloat)
next
  case (Datetime64 xs)
  then show ?thesis
    by (auto simp: list_all_iff fill_object_notna isna_box_datetime) (metis not_None_eq)
qed (auto simp: list_all_iff fill_object_notna)

lemma where_zero_all: "list_all id cond \<Longrightarrow> where_zero s cond = s"
  by (cases s) simp_all

lemma where_notnull_replace:
  "where_zero (replace_missing s) (notnull (replace_missing s)) = replace_missing s"
  using replace_missing_notna [of s]
  by (intro where_zero_all) (simp add: notnull_def list_all_iff)

lemma df_where_replace: "df_where_notnull (df_replace df) = df_replace df"
  by (simp add: df_where_notnull_def df_replace_def where_notnull_replace case_prod_unfold comp_def)

lemma format_loop:
  "distinct (map fst (pre @ cs)) \<Longrightarrow>
   format_date_columns (map fst (filter (\<lambda>(name, s). is_datetime64 s) cs)) (df\<lparr>columns := pre @ cs\<rparr>)
     = Inr (df\<lparr>columns := pre @ map (\<lambda>(name, s). (name, format_series s)) cs\<rparr>)"
proof (induction cs arbitrary: pre)
  case Nil
  then show ?case by simp
next
  case (Cons c cs)
  obtain n s where c: "c = (n, s)" by (cases c)
  from Cons.prems c have d: "distinct (map fst ((pre @ [(n, s')]) @ cs))" for s'
    by auto
  from Cons.prems c have npre: "n \<notin> fst ` set pre" and ncs: "n \<notin> fst ` set cs"
    by auto
  have fpre: "filter (\<lambda>(name, s). name = n) pre = []"
    using npre by (force simp: filter_empty_conv)
  have fcs: "filter (\<lambda>(name, s). name = n) cs = []"
    using ncs by (force simp: filter_empty_conv)
  have mpre: "map (\<lambda>(name, s). if name = n then (name, s') else (name, s)) pre = pre" for s'
    using npre by (induction pre) auto
  have mcs: "map (\<lambda>(name, s). if name = n then (name, s') else (name, s)) cs = cs" for s'
    using ncs by (induction cs) auto
  show ?case
  proof (cases "is_datetime64 s")
    case True
    then obtain xs where s: "s = Datetime64 xs" by (cases s) auto
    have "format_date_columns (map fst (filter (\<lambda>(name, s). is_datetime64 s) (c # cs))) (df\<lparr>columns := pre @ c # cs\<rparr>)
      = format_date_columns (map fst (filter (\<lambda>(name, s). is_datetime64 s) cs))
          (df\<lparr>columns := (pre @ [(n, Object (map strftime_value xs))]) @ cs\<rparr>)"
      by (simp add: c s getitem_dt_strftime_def fpre fcs setitem_def mpre mcs)
    also have "\<dots> = Inr (df\<lparr>columns := (pre @ [(n, Object (map strftime_value xs))]) @ map (\<lambda>(name, s). (name, format_series s)) cs\<rparr>)"
      by (rule Cons.IH [OF d])
    finally show ?thesis by (simp add: c s format_series_def)
  next
    case False
    have "format_date_columns (map fst (filter (\<lambda>(name, s). is_datetime64 s) (c # cs))) (df\<lparr>columns := pre @ c # cs\<rparr>)
      = format_date_columns (map fst (filter (\<lambda>(name, s). is_datetime64 s) cs))
          (df\<lparr>columns := (pre @ [(n, s)]) @ cs\<rparr>)"
      using False by (simp add: c)
    also have "\<dots> = Inr (df\<lparr>columns := (pre @ [(n, s)]) @ map (\<lambda>(name, s). (name, format_series s)) cs\<rparr>)"
      by (rule Cons.IH [OF d])
    finally show ?thesis using False by (cases s) (simp_all add: c format_series_def)
  qed
qed

lemma clean_dataframe_eq:
  assumes "distinct (map fst (columns df))"
  shows "clean_dataframe df = Inr (cleaned df)"
proof -
  let ?cs = "map (\<lambda>(name, s). (name, replace_missing s)) (columns df)"
  have d: "distinct (map fst ([] @ ?cs))" using assms by (simp add: comp_def case_prod_unfold)
  have "clean_dataframe df = format_date_columns (map fst (filter (\<lambda>(name, s). is_datetime64 s) ?cs)) (df\<lparr>columns := [] @ ?cs\<rparr>)"
    unfolding clean_dataframe_def Let_def df_where_replace select_dtypes_datetime64_def
    by (simp add: df_replace_def)
  also have "\<dots> = Inr (df\<lparr>columns := [] @ map (\<lambda>(name, s). (name, format_series s)) ?cs\<rparr>)"
    by (rule format_loop [OF d])
  finally show ?thesis by (simp add: cleaned_def clean_series_def case_prod_unfold comp_def)
qed

lemma fill_object_box: "fill_object (box_datetime x) = (case x of None \<Rightarrow> PyInt 0 | Some t \<Rightarrow> PdTimestamp t)"
  by (cases x) (simp_all add: fill_object_def)

lemma PdNaT_in_box: "PdNaT \<in> box_datetime ` set xs \<longleftrightarrow> None \<in> set xs"
proof
  assume "PdNaT \<in> box_datetime ` set xs"
  then obtain x where x: "x \<in> set xs" "box_datetime x = PdNaT" by auto
  show "None \<in> set xs" by (cases x) (use x in auto)
next
  assume "None \<in> set xs"
  then show "PdNaT \<in> box_datetime ` set xs" by force
qed

lemma to_objects_clean_series:
  "to_objects (clean_series s) = map (clean_cell s) (to_objects s)"
proof (cases s)
  case (Int64 xs)
  then show ?thesis by (simp add: clean_series_def format_series_def clean_cell_def)
next
  case (Float64 xs)
  then show ?thesis
    by (auto simp: clean_series_def format_series_def clean_cell_def fill_float_def isna_PyFloat)
next
  case (Bool xs)
  then show ?thesis by (simp add: clean_series_def format_series_def clean_cell_def)
next
  case (Datetime64 xs)
  show ?thesis
  proof (cases "None \<in> set xs")
    case True
    then show ?thesis using Datetime64
      by (auto simp: clean_series_def format_series_def clean_cell_def PdNaT_in_box
            isna_box_datetime fill_object_def)
  next
    case False
    have "strftime_value x = clean_cell s (box_datetime x)" if "x \<in> set xs" for x
      by (cases x) (use that False Datetime64 in \<open>auto simp: clean_cell_def PdNaT_in_box\<close>)
    then show ?thesis using False Datetime64
      by (simp add: clean_series_def format_series_def)
  qed
next
  case (Object xs)
  then show ?thesis
    by (simp add: clean_series_def format_series_def clean_cell_def fill_object_def)
qed

lemma cellwise_cleaned:
  assumes "\<And>s v. v \<in> set (to_objects s) \<Longrightarrow> R s v (clean_cell s v)"
  shows "cellwise R df (cleaned df)"
proof -
  have "list_all2 (R s) (to_objects s) (map (clean_cell s) (to_objects s))" for s
    using assms by (simp add: list_all2_conv_all_nth)
  then show ?thesis
    by (simp add: cellwise_def cleaned_def list_all2_conv_all_nth to_objects_clean_series
          case_prod_unfold)
qed

lemma all_cells_cleaned:
  assumes "\<And>s v. v \<in> set (to_objects s) \<Longrightarrow> P (clean_cell s v)"
  shows "all_cells P (cleaned df)"
  using assms
  by (auto simp: all_cells_def cleaned_def list_all_iff to_objects_clean_series)

lemma zero_of_zero: "is_zero (zero_of s)" "\<not> isna (zero_of s)"
  by (cases s; simp)+

lemma datetime_cell:
  "is_datetime64 s \<Longrightarrow> v \<in> set (to_objects s) \<Longrightarrow> v = PdNaT \<or> (\<exists>t. v = PdTimestamp t)"
  by (cases s) (auto, case_tac x, auto)

lemma clean_cell_notna: "v \<in> set (to_objects s) \<Longrightarrow> \<not> isna (clean_cell s v)"
  using datetime_cell [of s v]
  by (auto simp: clean_cell_def zero_of_zero)

text \<open>
  C2, as the code has it: after the Cleaner no cell is \<^verbatim>\<open>None\<close>, \<^verbatim>\<open>pd.NA\<close>, NaT or NaN,
  and every cell that was one of these holds a zero (the int 0, or 0.0 in a \<^verbatim>\<open>float64\<close>
  column). Infinite values are not among the missing values.
\<close>

theorem clean_dataframe_no_missing:
  "wf_dataframe df \<Longrightarrow>
   \<exists>df'. clean_dataframe df = Inr df' \<and> all_cells (\<lambda>v. \<not> isna v) df'
       \<and> cellwise (\<lambda>s v v'. isna v \<longrightarrow> is_zero v') df df'"
  by (auto simp: wf_dataframe_def clean_dataframe_eq intro!: all_cells_cleaned cellwise_cleaned
       simp: clean_cell_notna) (simp add: clean_cell_def zero_of_zero)

theorem clean_dataframe_no_missing_witness:
  "wf_dataframe \<lparr>nrows = 2, columns = [(''id'', Int64 [1, 2]), (''x'', Float64 [NaN, PosInf]),
        (''s'', Object [PyNone, PyStr ''a''])]\<rparr>
   \<and> clean_dataframe \<lparr>nrows = 2, columns = [(''id'', Int64 [1, 2]), (''x'', Float64 [NaN, PosInf]),
        (''s'', Object [PyNone, PyStr ''a''])]\<rparr>
     = Inr \<lparr>nrows = 2, columns = [(''id'', Int64 [1, 2]), (''x'', Float64 [Finite 0, PosInf]),
        (''s'', Object [PyInt 0, PyStr ''a''])]\<rparr>
   \<and> all_cells (\<lambda>v. \<not> isna v) \<lparr>nrows = 2, columns = [(''id'', Int64 [1, 2]),
        (''x'', Float64 [Finite 0, PosInf]), (''s'', Object [PyInt 0, PyStr ''a''])]\<rparr>"
  using clean_dataframe_no_missing [of "\<lparr>nrows = 2, columns = [(''id'', Int64 [1, 2]),
        (''x'', Float64 [NaN, PosInf]), (''s'', Object [PyNone, PyStr ''a''])]\<rparr>"]
  by (simp add: cleaner_defs wf_dataframe_def all_cells_def cellwise_def)

text \<open>
  C2 as stated fails on an infinite value: a \<^verbatim>\<open>float64\<close> column holding \<open>inf\<close> is
  returned as it is, so an output cell holds an infinite value and not 0.
\<close>

theorem clean_dataframe_keeps_infinity:
  "clean_dataframe \<lparr>nrows = 1, columns = [(''x'', Float64 [PosInf])]\<rparr>
     = Inr \<lparr>nrows = 1, columns = [(''x'', Float64 [PosInf])]\<rparr>
   \<and> \<not> all_cells (\<lambda>v. \<not> isna v \<and> \<not> is_infinite v)
         \<lparr>nrows = 1, columns = [(''x'', Float64 [PosInf])]\<rparr>"
  by (simp add: cleaner_defs all_cells_def)


lemma format_cell_datetime:
  "is_datetime64 s \<Longrightarrow> v \<in> set (to_objects s) \<Longrightarrow> v \<noteq> PdNaT \<Longrightarrow> json_representable (format_cell v)"
  using datetime_cell [of s v] by auto

lemma zero_of_json: "json_representable (zero_of s)"
  by (cases s) simp_all

text \<open>
  C3 fails on the code: when a \<^verbatim>\<open>datetime64\<close> column holds a NaT beside a proper
  timestamp, the replacement of the NaT by 0 turns the column into an \<^verbatim>\<open>object\<close>
  column, \<^verbatim>\<open>select_dtypes\<close> no longer finds it, and the timestamp 2023-05-14 10:30:00
  is output as a Timestamp object and not as the string 2023-05-14. The resulting
  records cannot be serialized by \<^verbatim>\<open>json.dump\<close>.
\<close>

theorem clean_dataframe_mixed_datetime_column:
  "clean_dataframe \<lparr>nrows = 2, columns = [(''d'', Datetime64
       [Some \<lparr>year = 2023, month = 5, day = 14, hour = 10, minute = 30, second = 0,
              nanosecond = 0\<rparr>, None])]\<rparr>
   = Inr \<lparr>nrows = 2, columns = [(''d'', Object
       [PdTimestamp \<lparr>year = 2023, month = 5, day = 14, hour = 10, minute = 30, second = 0,
              nanosecond = 0\<rparr>, PyInt 0])]\<rparr>
   \<and> \<not> dataset_serializable (to_dict_records \<lparr>nrows = 2, columns = [(''d'', Object
       [PdTimestamp \<lparr>year = 2023, month = 5, day = 14, hour = 10, minute = 30, second = 0,
              nanosecond = 0\<rparr>, PyInt 0])]\<rparr>)"
  by (simp add: cleaner_defs dataset_serializable_def to_dict_records_def py_dict_def
        upt_conv_Cons)

text \<open>
  C7, as the code has it: the output batch has the row count and the labels of the
  input, and an output value is a string, a number or a boolean wherever the input cell
  is missing, is a string, a number or a boolean, or belongs to a \<^verbatim>\<open>datetime64\<close>
  column without NaT.
\<close>

theorem clean_dataframe_json_values:
  "wf_dataframe df \<Longrightarrow>
   \<exists>df'. clean_dataframe df = Inr df'
       \<and> cellwise (\<lambda>s v v'. json_input s v \<longrightarrow> json_representable v') df df'"
proof -
  assume "wf_dataframe df"
  then have "clean_dataframe df = Inr (cleaned df)"
    by (simp add: wf_dataframe_def clean_dataframe_eq)
  moreover have "cellwise (\<lambda>s v v'. json_input s v \<longrightarrow> json_representable v') df (cleaned df)"
  proof (rule cellwise_cleaned, rule impI)
    fix s v assume v: "v \<in> set (to_objects s)" and j: "json_input s v"
    show "json_representable (clean_cell s v)"
    proof (cases "isna v")
      case True
      then show ?thesis by (simp add: clean_cell_def zero_of_json)
    next
      case False
      show ?thesis
      proof (cases "is_datetime64 s \<and> PdNaT \<notin> set (to_objects s)")
        case True
        with v have "json_representable (format_cell v)"
          by (metis format_cell_datetime)
        with True False show ?thesis by (simp add: clean_cell_def)
      next
        case F2: False
        with j False have "json_representable v" by (auto simp: json_input_def)
        with F2 False show ?thesis by (auto simp: clean_cell_def)
      qed
    qed
  qed
  ultimately show ?thesis by blast
qed

theorem clean_dataframe_json_values_witness:
  "wf_dataframe \<lparr>nrows = 2, columns = [(''n'', Object [PyNone, PyStr ''ab'']),
       (''d'', Datetime64 [Some \<lparr>year = 2023, month = 5, day = 14, hour = 10, minute = 30, second = 0, nanosecond = 0\<rparr>,
                           Some \<lparr>year = 1999, month = 12, day = 31, hour = 23, minute = 59, second = 59, nanosecond = 0\<rparr>])]\<rparr>
   \<and> clean_dataframe \<lparr>nrows = 2, columns = [(''n'', Object [PyNone, PyStr ''ab'']),
       (''d'', Datetime64 [Some \<lparr>year = 2023, month = 5, day = 14, hour = 10, minute = 30, second = 0, nanosecond = 0\<rparr>,
                           Some \<lparr>year = 1999, month = 12, day = 31, hour = 23, minute = 59, second = 59, nanosecond = 0\<rparr>])]\<rparr>
     = Inr \<lparr>nrows = 2, columns = [(''n'', Object [PyInt 0, PyStr ''ab'']),
              (''d'', Object [PyStr ''2023-05-14'', PyStr ''1999-12-31''])]\<rparr>
   \<and> all_cells json_representable \<lparr>nrows = 2, columns = [(''n'', Object [PyInt 0, PyStr ''ab'']),
              (''d'', Object [PyStr ''2023-05-14'', PyStr ''1999-12-31''])]\<rparr>"
  using clean_dataframe_json_values [of "\<lparr>nrows = 2, columns = [(''n'', Object [PyNone, PyStr ''ab'']),
       (''d'', Datetime64 [Some \<lparr>year = 2023, month = 5, day = 14, hour = 10, minute = 30, second = 0, nanosecond = 0\<rparr>,
                           Some \<lparr>year = 1999, month = 12, day = 31, hour = 23, minute = 59, second = 59, nanosecond = 0\<rparr>])]\<rparr>"]
  by (simp add: cleaner_defs wf_dataframe_def all_cells_def cellwise_def json_input_def)

text \<open>
  C7 as stated fails on a value that is none of these: the bytes of a BLOB column pass
  through the Cleaner unchanged and reach serialization.
\<close>

theorem clean_dataframe_keeps_bytes:
  "wf_dataframe \<lparr>nrows = 1, columns = [(''photo'', Object [PyBytes [137, 80]])]\<rparr>
   \<and> clean_dataframe \<lparr>nrows = 1, columns = [(''photo'', Object [PyBytes [137, 80]])]\<rparr>
     = Inr \<lparr>nrows = 1, columns = [(''photo'', Object [PyBytes [137, 80]])]\<rparr>
   \<and> \<not> all_cells json_representable \<lparr>nrows = 1, columns = [(''photo'', Object [PyBytes [137, 80]])]\<rparr>"
  by (simp add: cleaner_defs all_cells_def wf_dataframe_def)





section \<open>Properties of the Exporter\<close>

lemmas exporter_defs = export_preprocessed_data_def export_table_def write_marker_def
  output_file_def marker_file_def os_path_join_def output_dir_def dataset_serializable_def
  marker_written_def table_export_ok_def

lemma last_os_path_join: "b \<noteq> [] \<Longrightarrow> last (os_path_join a b) = last b"
  by (simp add: os_path_join_def)

lemma marker_file_eq: "marker_file = ''intermediate/preprocessing_complete.txt''"
  by (simp add: marker_file_def os_path_join_def output_dir_def)

lemma output_file_not_marker: "output_file table \<noteq> marker_file"
proof
  assume "output_file table = marker_file"
  then have "last (output_file table) = last marker_file" by simp
  then show False
    by (simp add: output_file_def last_os_path_join marker_file_eq)
qed

lemma export_table_ok:
  "table_export_ok env (table, data) \<Longrightarrow>
   fst (export_table env table data st) = Inr ()
   \<and> files_written (snd (export_table env table data st))
       = files_written st @ [(output_file table, JsonArray data)]"
  by (simp add: export_table_def table_export_ok_def)

lemma export_table_fails:
  "\<not> table_export_ok env (table, data) \<Longrightarrow>
   (\<exists>e. fst (export_table env table data st) = Inl e)
   \<and> map fst (files_written (snd (export_table env table data st)))
       \<in> {map fst (files_written st), map fst (files_written st) @ [output_file table]}"
  by (auto simp: export_table_def table_export_ok_def)

lemma export_loop_ok:
  "list_all (table_export_ok env) processed \<Longrightarrow>
   fst (export_loop env processed st) = Inr ()
   \<and> files_written (snd (export_loop env processed st))
       = files_written st @ map (\<lambda>(table, data). (output_file table, JsonArray data)) processed"
proof (induction processed arbitrary: st)
  case Nil
  then show ?case by simp
next
  case (Cons item rest)
  obtain table data where item: "item = (table, data)" by (cases item)
  obtain r st' where et: "export_table env table data st = (r, st')"
    by (cases "export_table env table data st")
  from Cons.prems item have ok: "table_export_ok env (table, data)"
    and rest: "list_all (table_export_ok env) rest" by simp_all
  from export_table_ok [OF ok, of st] et
  have r: "r = Inr ()" and f: "files_written st' = files_written st @ [(output_file table, JsonArray data)]"
    by simp_all
  from Cons.IH [OF rest, of st'] show ?case
    by (simp add: item et r f)
qed

lemma export_loop_fails:
  "\<not> list_all (table_export_ok env) processed \<Longrightarrow>
   (\<exists>e. fst (export_loop env processed st) = Inl e)
   \<and> set (map fst (files_written (snd (export_loop env processed st))))
       \<subseteq> set (map fst (files_written st)) \<union> output_file ` fst ` set processed"
proof (induction processed arbitrary: st)
  case Nil
  then show ?case by simp
next
  case (Cons item rest)
  obtain table data where item: "item = (table, data)" by (cases item)
  obtain r st' where et: "export_table env table data st = (r, st')"
    by (cases "export_table env table data st")
  show ?case
  proof (cases "table_export_ok env (table, data)")
    case True
    with Cons.prems item have rest: "\<not> list_all (table_export_ok env) rest" by simp
    from export_table_ok [OF True, of st] et
    have r: "r = Inr ()" and f: "files_written st' = files_written st @ [(output_file table, JsonArray data)]"
      by simp_all
    from Cons.IH [OF rest, of st'] show ?thesis
      by (auto simp: item et r f)
  next
    case False
    from export_table_fails [OF False, of st] et obtain e where r: "r = Inl e"
      and f: "map fst (files_written st') = map fst (files_written st)
              \<or> map fst (files_written st') = map fst (files_written st) @ [output_file table]"
      by auto
    from f have "set (map fst (files_written st'))
        \<subseteq> set (map fst (files_written st)) \<union> {output_file table}"
      by (metis Un_upper1 set_append list.simps(15) empty_set subset_refl)
    then show ?thesis
      by (auto simp: item et r)
  qed
qed

text \<open>
  C1: the run writes the marker file if and only if every table's file has been written
  successfully (the directory could be made, and the marker itself could be opened);
  and when the marker is written, it is the last file written, after the JSON array of
  every table, in order.
\<close>

theorem export_marker_iff_all_written:
  "(marker_written (snd (export_preprocessed_data env processed))
      \<longleftrightarrow> makedirs_ok env \<and> list_all (table_export_ok env) processed \<and> open_ok env marker_file)
   \<and> (marker_written (snd (export_preprocessed_data env processed)) \<longrightarrow>
        butlast (files_written (snd (export_preprocessed_data env processed)))
          = map (\<lambda>(table, data). (output_file table, JsonArray data)) processed
        \<and> fst (last (files_written (snd (export_preprocessed_data env processed)))) = marker_file)"
proof (cases "makedirs_ok env")
  case False
  then show ?thesis
    by (simp add: export_preprocessed_data_def marker_written_def)
next
  case mk: True
  let ?st0 = "\<lparr>files_written = [], export_logged = []\<rparr>"
  obtain r st where loop: "export_loop env processed ?st0 = (r, st)"
    by (cases "export_loop env processed ?st0")
  have nm: "marker_file \<notin> output_file ` fst ` set processed"
    using output_file_not_marker by (metis imageE)
  show ?thesis
  proof (cases "list_all (table_export_ok env) processed")
    case True
    from export_loop_ok [OF True, of ?st0] loop
    have r: "r = Inr ()"
      and f: "files_written st = map (\<lambda>(table, data). (output_file table, JsonArray data)) processed"
      by simp_all
    have "fst ` set (files_written st) = output_file ` fst ` set processed"
      by (force simp: f image_iff)
    with nm have nm': "marker_file \<notin> fst ` set (files_written st)" by simp
    show ?thesis using mk True nm'
      by (simp add: export_preprocessed_data_def loop r write_marker_def marker_written_def f)
  next
    case False
    from export_loop_fails [OF False, of ?st0] loop obtain e where r: "r = Inl e"
      and sub: "set (map fst (files_written st)) \<subseteq> output_file ` fst ` set processed"
      by auto
    from sub nm have "marker_file \<notin> fst ` set (files_written st)" by auto
    then show ?thesis using mk False
      by (simp add: export_preprocessed_data_def loop r marker_written_def)
  qed
qed


theorem export_marker_iff_all_written_witness:
  "export_preprocessed_data \<lparr>makedirs_ok = True, open_ok = (\<lambda>p. True), write_ok = (\<lambda>p. True)\<rparr>
      [(''tb_encounter'', [[(''id'', PyInt 1)]])]
   = (Inr True,
      \<lparr>files_written =
         [(''intermediate/tb_encounter_preprocessed.json'', JsonArray [[(''id'', PyInt 1)]]),
          (''intermediate/preprocessing_complete.txt'',
           MarkerText ''Preprocessing completed successfully'')],
       export_logged = [ExportedRecords 1 ''intermediate/tb_encounter_preprocessed.json'']\<rparr>)
   \<and> marker_written (snd (export_preprocessed_data
        \<lparr>makedirs_ok = True, open_ok = (\<lambda>p. True), write_ok = (\<lambda>p. True)\<rparr>
        [(''tb_encounter'', [[(''id'', PyInt 1)]])]))
   \<and> export_preprocessed_data \<lparr>makedirs_ok = True, open_ok = (\<lambda>p. True), write_ok = (\<lambda>p. True)\<rparr>
      [(''tb_encounter'', [[(''id'', PyInt 1)]]), (''tb_person_mtr'', [[(''photo'', PyBytes [1])]])]
   = (Inl TypeError,
      \<lparr>files_written =
         [(''intermediate/tb_encounter_preprocessed.json'', JsonArray [[(''id'', PyInt 1)]]),
          (''intermediate/tb_person_mtr_preprocessed.json'', Incomplete)],
       export_logged = [ExportedRecords 1 ''intermediate/tb_encounter_preprocessed.json'']\<rparr>)
   \<and> \<not> marker_written (snd (export_preprocessed_data
        \<lparr>makedirs_ok = True, open_ok = (\<lambda>p. True), write_ok = (\<lambda>p. True)\<rparr>
        [(''tb_encounter'', [[(''id'', PyInt 1)]]), (''tb_person_mtr'', [[(''photo'', PyBytes [1])]])]))"
  using export_marker_iff_all_written
          [of "\<lparr>makedirs_ok = True, open_ok = (\<lambda>p. True), write_ok = (\<lambda>p. True)\<rparr>"
              "[(''tb_encounter'', [[(''id'', PyInt 1)]])]"]
        export_marker_iff_all_written
          [of "\<lparr>makedirs_ok = True, open_ok = (\<lambda>p. True), write_ok = (\<lambda>p. True)\<rparr>"
              "[(''tb_encounter'', [[(''id'', PyInt 1)]]), (''tb_person_mtr'', [[(''photo'', PyBytes [1])]])]"]
  by (simp add: exporter_defs)

section \<open>Properties of the Extractor\<close>

lemma update_fresh: "k \<notin> fst ` set al \<Longrightarrow> AList.update k v al = al @ [(k, v)]"
  by (induction al) auto

lemma fold_update_distinct:
  "distinct (map fst (acc @ kvs)) \<Longrightarrow>
   fold (\<lambda>(k, v) d. AList.update k v d) kvs acc = acc @ kvs"
proof (induction kvs arbitrary: acc)
  case Nil
  then show ?case by simp
next
  case (Cons kv kvs)
  obtain k v where kv: "kv = (k, v)" by (cases kv)
  from Cons.prems kv have fresh: "k \<notin> fst ` set acc" by auto
  from Cons.prems kv have d: "distinct (map fst ((acc @ [(k, v)]) @ kvs))" by auto
  show ?case using Cons.IH [OF d] by (simp add: kv update_fresh [OF fresh])
qed

lemma py_dict_distinct: "distinct (map fst kvs) \<Longrightarrow> py_dict kvs = kvs"
  using fold_update_distinct [of "[]" kvs] by (simp add: py_dict_def)

lemma float_of_int_finite: "\<exists>q. float_of_int i = Finite q"
  by (simp add: float_of_int_def)

lemma column_matches:
  assumes "list_all (\<lambda>v. v \<noteq> SqlReal NaN) vs"
  shows "list_all2 cell_matches vs (to_objects (clean_series (column_of_values vs)))"
proof -
  have obj: "cell_matches v (clean_cell s (py_of_sql v))" if "v \<noteq> SqlReal NaN" "\<not> is_datetime64 s"
      "zero_of s = PyInt 0" for v s
    using that by (cases v) (auto simp: clean_cell_def isna_PyFloat)
  have flt: "cell_matches v (clean_cell (Float64 xs) (PyFloat (float_value v)))"
    if "v \<noteq> SqlReal NaN" "is_number_or_null v" for v xs
  proof (cases v)
    case (SqlInteger i)
    obtain q where "float_of_int i = Finite q" using float_of_int_finite by blast
    with SqlInteger show ?thesis by (simp add: clean_cell_def)
  qed (use that in \<open>auto simp: clean_cell_def isna_PyFloat\<close>)
  have int: "cell_matches v (clean_cell (Int64 xs) (PyInt (integer_value v)))"
    if "is_integer v" for v xs
    using that by (cases v) (auto simp: clean_cell_def)
  show ?thesis
    using assms
    by (auto simp: column_of_values_def to_objects_clean_series list_all2_conv_all_nth
          list_all_length int flt obj)
qed

lemma length_to_objects_clean_column:
  "length (to_objects (clean_series (column_of_values vs))) = length vs"
  by (simp add: column_of_values_def to_objects_clean_series)

lemma columns_cleaned_from_records:
  "columns (cleaned (from_records names data))
   = map (\<lambda>(j, name). (name, clean_series (column_of_values (map (\<lambda>row. row ! j) data))))
       (enumerate 0 names)"
  by (simp add: cleaned_def from_records_def case_prod_unfold comp_def)

lemma map_fst_enumerate_names:
  "map (fst \<circ> (\<lambda>(j, name). (name, f j name))) (enumerate n names) = names"
  by (induction names arbitrary: n) auto

lemma to_dict_records_cleaned:
  assumes "distinct names"
  shows "to_dict_records (cleaned (from_records names data))
    = map (\<lambda>i. map (\<lambda>(j, name).
             (name, to_objects (clean_series (column_of_values (map (\<lambda>row. row ! j) data))) ! i))
           (enumerate 0 names)) [0..<length data]"
proof -
  have n: "nrows (cleaned (from_records names data)) = length data"
    by (simp add: cleaned_def from_records_def)
  have "py_dict (map (\<lambda>(name, s). (name, to_objects s ! i))
          (columns (cleaned (from_records names data))))
      = map (\<lambda>(j, name).
             (name, to_objects (clean_series (column_of_values (map (\<lambda>row. row ! j) data))) ! i))
           (enumerate 0 names)" for i
  proof -
    have eq: "map (\<lambda>(name, s). (name, to_objects s ! i)) (columns (cleaned (from_records names data)))
      = map (\<lambda>(j, name).
             (name, to_objects (clean_series (column_of_values (map (\<lambda>row. row ! j) data))) ! i))
           (enumerate 0 names)"
      by (simp add: columns_cleaned_from_records case_prod_unfold comp_def)
    show ?thesis unfolding eq
      by (rule py_dict_distinct) (simp add: map_fst_enumerate_names assms)
  qed
  then show ?thesis by (simp add: to_dict_records_def n)
qed

lemma batch_matches:
  assumes "distinct names"
    and "list_all (\<lambda>row. length row = length names \<and> list_all (\<lambda>v. v \<noteq> SqlReal NaN) row) data"
  shows "list_all2 (row_matches names) data (to_dict_records (cleaned (from_records names data)))"
proof -
  have "row_matches names (data ! i)
     (map (\<lambda>(j, name).
             (name, to_objects (clean_series (column_of_values (map (\<lambda>row. row ! j) data))) ! i))
           (enumerate 0 names))" if i: "i < length data" for i
  proof -
    from assms(2) i have len: "length (data ! i) = length names"
      by (simp add: list_all_length)
    have cell: "cell_matches (data ! i ! j)
        (to_objects (clean_series (column_of_values (map (\<lambda>row. row ! j) data))) ! i)"
      if j: "j < length names" for j
    proof -
      have "list_all (\<lambda>v. v \<noteq> SqlReal NaN) (map (\<lambda>row. row ! j) data)"
        using assms(2) j by (auto simp: list_all_length)
      from column_matches [OF this] i show ?thesis
        by (simp add: list_all2_conv_all_nth)
    qed
    show ?thesis
      unfolding row_matches_def
      by (auto simp: map_fst_enumerate_names list_all2_conv_all_nth len nth_enumerate_eq cell)
  qed
  then show ?thesis
    by (simp add: to_dict_records_cleaned [OF assms(1)] list_all2_conv_all_nth)
qed

lemma concat_fetch_chunks: "concat (fetch_chunks n rows) = rows"
proof (induction n rows rule: fetch_chunks.induct)
  case (1 n rows)
  then show ?case
    by (subst fetch_chunks.simps) auto
qed

lemma list_all_fetch_chunks:
  "list_all P rows \<Longrightarrow> list_all (list_all P) (fetch_chunks n rows)"
proof (induction n rows rule: fetch_chunks.induct)
  case (1 n rows)
  show ?case
  proof (cases "rows = [] \<or> n = 0")
    case True
    with "1.prems" show ?thesis by (subst fetch_chunks.simps) auto
  next
    case False
    from "1.prems" have "list_all P (take n rows)" "list_all P (drop n rows)"
      by (auto simp: list_all_iff dest: in_set_takeD in_set_dropD)
    with False "1.IH" show ?thesis by (subst fetch_chunks.simps) auto
  qed
qed

lemma list_all2_concat:
  "list_all2 (list_all2 P) xss yss \<Longrightarrow> list_all2 P (concat xss) (concat yss)"
  by (induction rule: list_all2_induct) (auto intro: list_all2_appendI)

lemma list_all2_map_right:
  "list_all Q xs \<Longrightarrow> (\<And>x. Q x \<Longrightarrow> R x (f x)) \<Longrightarrow> list_all2 R xs (map f xs)"
  by (induction xs) auto

lemma names_from_records: "map fst (columns (from_records names data)) = names"
  by (simp add: from_records_def map_fst_enumerate_names)

lemma process_chunks_ok:
  "list_all (\<lambda>df. distinct (map fst (columns df))) frames \<Longrightarrow>
   fst (process_chunks table (map Inr frames) records msgs)
     = Inr (records @ concat (map (\<lambda>df. to_dict_records (cleaned df)) frames))"
proof (induction frames arbitrary: records msgs)
  case Nil
  then show ?case by simp
next
  case (Cons df frames)
  then show ?case by (simp add: clean_dataframe_eq Let_def)
qed

lemma process_chunks_raises:
  "Inl e \<in> set chunks \<Longrightarrow> \<exists>e'. fst (process_chunks table chunks records msgs) = Inl e'"
proof (induction chunks arbitrary: records msgs)
  case Nil
  then show ?case by simp
next
  case (Cons c chunks)
  show ?case
  proof (cases c)
    case (Inl a)
    then show ?thesis by simp
  next
    case (Inr df)
    with Cons.prems have "Inl e \<in> set chunks" by auto
    from Cons.IH [OF this] Inr show ?thesis
      by (cases "clean_dataframe df") (auto simp: Let_def)
  qed
qed

lemma fst_process_chunks_msgs:
  "fst (process_chunks table chunks records msgs) = fst (process_chunks table chunks records msgs')"
proof (induction chunks arbitrary: records msgs msgs')
  case Nil
  then show ?case by simp
next
  case (Cons c chunks)
  show ?case
  proof (cases c)
    case (Inl a)
    then show ?thesis by simp
  next
    case (Inr df)
    with Cons.IH show ?thesis
      by (cases "clean_dataframe df") (auto simp: Let_def)
  qed
qed

lemma empty_frame_records: "to_dict_records (cleaned (from_records names [])) = []"
  by (simp add: to_dict_records_def cleaned_def from_records_def)

lemma extract_table_ok:
  assumes "count_star db table = Inr total_rows" "select_star db table = Inr cur"
    "fetch_fault db table = None" "distinct (description cur)"
  shows "fst (extract_table db n table msgs)
    = Inr (concat (map (\<lambda>batch. to_dict_records (cleaned (from_records (description cur) batch)))
                    (fetch_chunks n (fetched_rows cur))))"
proof -
  let ?names = "description cur"
  let ?batches = "fetch_chunks n (fetched_rows cur)"
  let ?frames = "if ?batches = [] then [from_records ?names []] else map (from_records ?names) ?batches"
  have d: "list_all (\<lambda>df. distinct (map fst (columns df))) ?frames"
    using assms(4) by (simp add: list_all_iff names_from_records)
  have r: "concat (map (\<lambda>df. to_dict_records (cleaned df)) ?frames)
     = concat (map (\<lambda>batch. to_dict_records (cleaned (from_records ?names batch))) ?batches)"
    by (simp add: empty_frame_records comp_def)
  have "fst (extract_table db n table msgs)
     = fst (process_chunks table (map Inr ?frames) [] (msgs @ [ProcessingTable table, TotalRows table total_rows]))"
    by (simp add: extract_table_def assms(1,2,3) read_sql_query_chunks_def Let_def)
  also have "\<dots> = Inr ([] @ concat (map (\<lambda>df. to_dict_records (cleaned df)) ?frames))"
    by (rule process_chunks_ok [OF d])
  finally show ?thesis using r by simp
qed

text \<open>
  C4: when the reading of a table does not fail, its dataset has one record per source
  row, and the records stand for the rows in read order: record number \<open>i\<close> has the
  column names as keys and, for each column, the (cleaned) value of row number \<open>i\<close>.
  This holds for every chunk size.
\<close>

theorem extract_table_preserves_rows:
  assumes "count_star db table = Inr total_rows" "select_star db table = Inr cur"
    "fetch_fault db table = None" "wf_cursor cur"
  shows "\<exists>records. fst (extract_table db chunk_size table msgs) = Inr records
     \<and> length records = length (fetched_rows cur)
     \<and> list_all2 (row_matches (description cur)) (fetched_rows cur) records"
proof -
  let ?names = "description cur"
  let ?batches = "fetch_chunks chunk_size (fetched_rows cur)"
  let ?recs = "concat (map (\<lambda>batch. to_dict_records (cleaned (from_records ?names batch))) ?batches)"
  from assms(4) have d: "distinct ?names"
    and rows: "list_all (\<lambda>row. length row = length ?names \<and> list_all (\<lambda>v. v \<noteq> SqlReal NaN) row)
                 (fetched_rows cur)"
    by (simp_all add: wf_cursor_def)
  have eq: "fst (extract_table db chunk_size table msgs) = Inr ?recs"
    by (rule extract_table_ok [OF assms(1,2,3) d])
  have "list_all2 (list_all2 (row_matches ?names)) ?batches
          (map (\<lambda>batch. to_dict_records (cleaned (from_records ?names batch))) ?batches)"
    by (rule list_all2_map_right [OF list_all_fetch_chunks [OF rows]]) (rule batch_matches [OF d])
  from list_all2_concat [OF this]
  have m: "list_all2 (row_matches ?names) (fetched_rows cur) ?recs"
    by (simp add: concat_fetch_chunks)
  from m have "length ?recs = length (fetched_rows cur)"
    by (simp add: list_all2_lengthD)
  with eq m show ?thesis by blast
qed

lemma extract_table_raises:
  "read_raises db n table \<Longrightarrow> \<exists>e. fst (extract_table db n table msgs) = Inl e"
proof (cases "count_star db table")
  case (Inl e)
  then show ?thesis by (simp add: extract_table_def)
next
  case c: (Inr total_rows)
  assume rr: "read_raises db n table"
  show ?thesis
  proof (cases "select_star db table")
    case (Inl e)
    with c show ?thesis by (simp add: extract_table_def)
  next
    case s: (Inr cur)
    from rr c s obtain k where k: "fetch_fault db table = Some k"
      and le: "k \<le> length (fetch_chunks n (fetched_rows cur))"
      by (auto simp: read_raises_def split: option.splits)
    have "Inl DatabaseError \<in> set (read_sql_query_chunks n (fetch_fault db table) cur)"
      using k le by (simp add: read_sql_query_chunks_def Let_def)
    from process_chunks_raises [OF this] c s show ?thesis
      by (simp add: extract_table_def)
  qed
qed

lemma extract_loop_raises:
  "\<exists>t\<in>set tables. read_raises db n t \<Longrightarrow>
   \<exists>e. fst (extract_loop db n tables processed msgs) = Inl e"
proof (induction tables arbitrary: processed msgs)
  case Nil
  then show ?case by simp
next
  case (Cons table rest)
  obtain r msgs' where et: "extract_table db n table msgs = (r, msgs')"
    by (cases "extract_table db n table msgs")
  show ?case
  proof (cases r)
    case (Inl e)
    with et show ?thesis by simp
  next
    case (Inr records)
    with et extract_table_raises [of db n table msgs] have "\<not> read_raises db n table" by auto
    with Cons.prems have "\<exists>t\<in>set rest. read_raises db n t" by auto
    from Cons.IH [OF this] et Inr show ?thesis by simp
  qed
qed

text \<open>
  C10: \<^verbatim>\<open>conn.close()\<close> is executed exactly when \<^verbatim>\<open>extract_tables\<close> returns the data of all
  tables; when the reading of any table raises (the row-count query, the
  \<^verbatim>\<open>SELECT *\<close> or a fetch), an exception leaves the method and the connection is not
  closed.
\<close>

theorem conn_closed_only_on_success:
  "(conn_closed (extract_tables db) \<longleftrightarrow> (\<exists>processed. outcome (extract_tables db) = Inr processed))
   \<and> ((\<exists>t\<in>set table_names. read_raises db 100000 t) \<longrightarrow>
        (\<exists>e. outcome (extract_tables db) = Inl e) \<and> \<not> conn_closed (extract_tables db))"
proof -
  obtain r msgs where loop: "extract_loop db 100000 table_names [] [] = (r, msgs)"
    by (cases "extract_loop db 100000 table_names [] []")
  have a: "conn_closed (extract_tables db) \<longleftrightarrow> (\<exists>processed. outcome (extract_tables db) = Inr processed)"
    by (cases r) (simp_all add: extract_tables_def extract_tables_with_def loop)
  have b: "(\<exists>e. outcome (extract_tables db) = Inl e) \<and> \<not> conn_closed (extract_tables db)"
    if "\<exists>t\<in>set table_names. read_raises db 100000 t"
  proof -
    from extract_loop_raises [OF that, of "[]" "[]"] loop obtain e where "r = Inl e" by auto
    then show ?thesis by (simp add: extract_tables_def extract_tables_with_def loop)
  qed
  from a b show ?thesis by blast
qed

lemma column_stable:
  assumes nc: "numeric_classes vs \<le> 1" and nan: "list_all (\<lambda>v. v \<noteq> SqlReal NaN) vs"
  shows "to_objects (clean_series (column_of_values vs)) = map stable_cell vs"
proof -
  have obj: "clean_cell (Object xs) (py_of_sql v) = stable_cell v" if "v \<noteq> SqlReal NaN" for v xs
    using that by (cases v) (auto simp: clean_cell_def isna_PyFloat)
  consider (int) "vs \<noteq> []" "list_all is_integer vs"
    | (flt) "\<not> (vs \<noteq> [] \<and> list_all is_integer vs)" "list_all is_number_or_null vs" "list_ex is_number vs"
    | (ob) "\<not> (vs \<noteq> [] \<and> list_all is_integer vs)" "\<not> (list_all is_number_or_null vs \<and> list_ex is_number vs)"
    by blast
  then show ?thesis
  proof cases
    case int
    have "clean_cell (Int64 xs) (PyInt (integer_value v)) = stable_cell v" if "is_integer v" for v xs
      using that by (cases v) (auto simp: clean_cell_def)
    with int show ?thesis
      by (auto simp: column_of_values_def to_objects_clean_series list_all_iff)
  next
    case flt
    have all_real: "is_real v" if v: "v \<in> set vs" for v
    proof (rule ccontr)
      assume nr: "\<not> is_real v"
      from flt(2) v have non: "is_number_or_null v" by (simp add: list_all_iff)
      from flt(3) obtain w where w: "w \<in> set vs" "is_number w" by (auto simp: list_ex_iff)
      show False
      proof (cases "is_integer w")
        case True
        with w have ei: "list_ex is_integer vs" by (auto simp: list_ex_iff)
        from flt(1) flt(3) obtain u where u: "u \<in> set vs" "\<not> is_integer u"
          by (auto simp: list_all_iff list_ex_iff)
        have "is_null u \<or> is_real u"
          by (cases u) (use flt(2) u in \<open>auto simp: list_all_iff\<close>)
        with u have "list_ex is_null vs \<or> list_ex is_real vs" by (auto simp: list_ex_iff)
        with ei nc show False by (auto simp: numeric_classes_def split: if_splits)
      next
        case False
        have "is_real w" by (cases w) (use False w in auto)
        with w have er: "list_ex is_real vs" by (auto simp: list_ex_iff)
        have "is_null v \<or> is_integer v" by (cases v) (use nr non in auto)
        with v have "list_ex is_null vs \<or> list_ex is_integer vs" by (auto simp: list_ex_iff)
        with er nc show False by (auto simp: numeric_classes_def split: if_splits)
      qed
    qed
    have "clean_cell (Float64 xs) (PyFloat (float_value v)) = stable_cell v"
      if "v \<in> set vs" for v xs
    proof -
      from all_real [OF that] obtain x where x: "v = SqlReal x" by (cases v) auto
      with nan that have "x \<noteq> NaN" by (auto simp: list_all_iff)
      with x show ?thesis by (simp add: clean_cell_def isna_PyFloat)
    qed
    with flt show ?thesis
      by (auto simp: column_of_values_def to_objects_clean_series)
  next
    case ob
    with nan show ?thesis
      by (auto simp: column_of_values_def to_objects_clean_series list_all_iff obj)
  qed
qed

lemma numeric_classes_mono:
  assumes "set us \<subseteq> set vs"
  shows "numeric_classes us \<le> numeric_classes vs"
proof -
  have "list_ex P us \<Longrightarrow> list_ex P vs" for P
    using assms by (auto simp: list_ex_iff)
  then show ?thesis
    unfolding numeric_classes_def
    by (intro add_mono) auto
qed

lemma batch_stable:
  assumes d: "distinct names"
    and rows: "list_all (\<lambda>row. length row = length names \<and> list_all (\<lambda>v. v \<noteq> SqlReal NaN) row) data"
    and st: "\<And>j. j < length names \<Longrightarrow> numeric_classes (map (\<lambda>row. row ! j) data) \<le> 1"
  shows "to_dict_records (cleaned (from_records names data))
     = map (\<lambda>row. zip names (map stable_cell row)) data"
proof -
  have col: "to_objects (clean_series (column_of_values (map (\<lambda>row. row ! j) data)))
      = map stable_cell (map (\<lambda>row. row ! j) data)" if j: "j < length names" for j
  proof (rule column_stable [OF st [OF j]])
    show "list_all (\<lambda>v. v \<noteq> SqlReal NaN) (map (\<lambda>row. row ! j) data)"
      using rows j by (auto simp: list_all_length)
  qed
  have rec: "map (\<lambda>(j, name).
             (name, to_objects (clean_series (column_of_values (map (\<lambda>row. row ! j) data))) ! i))
           (enumerate 0 names) = zip names (map stable_cell (data ! i))"
    if i: "i < length data" for i
  proof (rule nth_equalityI)
    from rows i have len: "length (data ! i) = length names" by (simp add: list_all_length)
    then show "length (map (\<lambda>(j, name).
             (name, to_objects (clean_series (column_of_values (map (\<lambda>row. row ! j) data))) ! i))
           (enumerate 0 names)) = length (zip names (map stable_cell (data ! i)))"
      by simp
    fix j assume "j < length (map (\<lambda>(j, name).
             (name, to_objects (clean_series (column_of_values (map (\<lambda>row. row ! j) data))) ! i))
           (enumerate 0 names))"
    then have j: "j < length names" by simp
    with i len show "map (\<lambda>(j, name).
             (name, to_objects (clean_series (column_of_values (map (\<lambda>row. row ! j) data))) ! i))
           (enumerate 0 names) ! j = zip names (map stable_cell (data ! i)) ! j"
      by (simp add: nth_enumerate_eq col)
  qed
  show ?thesis
    unfolding to_dict_records_cleaned [OF d]
    by (rule nth_equalityI) (simp_all add: rec)
qed

lemma set_fetch_chunks: "b \<in> set (fetch_chunks n rows) \<Longrightarrow> set b \<subseteq> set rows"
proof -
  assume "b \<in> set (fetch_chunks n rows)"
  then have "set b \<subseteq> set (concat (fetch_chunks n rows))" by auto
  then show ?thesis by (simp add: concat_fetch_chunks)
qed

lemma map_concat_chunks:
  "concat (map (map f) (fetch_chunks n rows)) = map f rows"
  by (metis concat_fetch_chunks map_concat)

text \<open>
  C5, as the code has it: for a table whose columns are all stable, the dataset is the
  same for every chunk size: each row becomes the record of its stable values.
\<close>

theorem extract_table_batch_invariant:
  assumes "count_star db table = Inr total_rows" "select_star db table = Inr cur"
    "fetch_fault db table = None" "wf_cursor cur" "stable_columns cur"
  shows "fst (extract_table db chunk_size table msgs)
       = Inr (map (\<lambda>row. zip (description cur) (map stable_cell row)) (fetched_rows cur))
     \<and> fst (extract_table db chunk_size' table msgs) = fst (extract_table db chunk_size table msgs)"
proof -
  let ?names = "description cur"
  from assms(4) have d: "distinct ?names"
    and rows: "list_all (\<lambda>row. length row = length ?names \<and> list_all (\<lambda>v. v \<noteq> SqlReal NaN) row)
                 (fetched_rows cur)"
    by (simp_all add: wf_cursor_def)
  have key: "fst (extract_table db n table msgs)
       = Inr (map (\<lambda>row. zip ?names (map stable_cell row)) (fetched_rows cur))" for n
  proof -
    have b: "to_dict_records (cleaned (from_records ?names batch))
        = map (\<lambda>row. zip ?names (map stable_cell row)) batch"
      if batch: "batch \<in> set (fetch_chunks n (fetched_rows cur))" for batch
    proof (rule batch_stable [OF d])
      from list_all_fetch_chunks [OF rows, of n] batch
      show "list_all (\<lambda>row. length row = length ?names \<and> list_all (\<lambda>v. v \<noteq> SqlReal NaN) row) batch"
        by (simp add: list_all_iff)
      fix j assume j: "j < length ?names"
      from set_fetch_chunks [OF batch]
      have "set (map (\<lambda>row. row ! j) batch) \<subseteq> set (column_values cur j)"
        by (auto simp: column_values_def)
      from numeric_classes_mono [OF this] assms(5) j
      show "numeric_classes (map (\<lambda>row. row ! j) batch) \<le> 1"
        by (force simp: stable_columns_def list_all_iff)
    qed
    have eq: "map (\<lambda>batch. to_dict_records (cleaned (from_records ?names batch)))
            (fetch_chunks n (fetched_rows cur))
        = map (map (\<lambda>row. zip ?names (map stable_cell row))) (fetch_chunks n (fetched_rows cur))"
      by (rule map_cong) (simp_all add: b)
    have "fst (extract_table db n table msgs)
        = Inr (concat (map (\<lambda>batch. to_dict_records (cleaned (from_records ?names batch)))
                         (fetch_chunks n (fetched_rows cur))))"
      by (rule extract_table_ok [OF assms(1,2,3) d])
    also have "\<dots> = Inr (concat (map (map (\<lambda>row. zip ?names (map stable_cell row)))
                         (fetch_chunks n (fetched_rows cur))))"
      by (simp only: eq)
    also have "\<dots> = Inr (map (\<lambda>row. zip ?names (map stable_cell row)) (fetched_rows cur))"
      by (simp only: map_concat_chunks)
    finally show ?thesis .
  qed
  show ?thesis by (simp add: key)
qed

lemma extract_table_count_irrelevant:
  assumes "\<not> isl (count_star db table)" "\<not> isl (count_star db' table)"
    "select_star db' table = select_star db table" "fetch_fault db' table = fetch_fault db table"
  shows "fst (extract_table db' n table msgs') = fst (extract_table db n table msgs)"
proof -
  from assms(1,2) obtain c c' where c: "count_star db table = Inr c" "count_star db' table = Inr c'"
    by (metis isl_def sum.exhaust_sel sum.collapse(2))
  show ?thesis
  proof (cases "select_star db table")
    case (Inl e)
    with c assms(3) show ?thesis by (simp add: extract_table_def)
  next
    case (Inr cur)
    with c assms(3,4) show ?thesis
      by (simp add: extract_table_def fst_process_chunks_msgs [of table _ "[]" "msgs' @ _" "msgs @ [ProcessingTable table, TotalRows table c]"])
  qed
qed

lemma fst_extract_loop_msgs:
  assumes "\<And>t msgs msgs'. t \<in> set tables \<Longrightarrow>
     fst (extract_table db' n t msgs') = fst (extract_table db n t msgs)"
  shows "fst (extract_loop db' n tables processed msgs') = fst (extract_loop db n tables processed msgs)"
  using assms
proof (induction tables arbitrary: processed msgs msgs')
  case Nil
  then show ?case by simp
next
  case (Cons table rest)
  obtain r m where a: "extract_table db n table msgs = (r, m)"
    by (cases "extract_table db n table msgs")
  obtain r' m' where b: "extract_table db' n table msgs' = (r', m')"
    by (cases "extract_table db' n table msgs'")
  from Cons.prems [of table msgs' msgs] a b have r: "r' = r" by simp
  have rest: "fst (extract_loop db' n rest p m') = fst (extract_loop db n rest p m)" for p
    by (rule Cons.IH) (rule Cons.prems, simp)
  show ?case
    by (cases r) (simp_all add: a b r rest)
qed

text \<open>
  C6, as the code has it: the result of the row-count query is only logged, so two
  connections that differ only in the counts they report (all of them obtained) give the
  same outcome; but a row-count query that fails is not caught: an exception leaves
  \<^verbatim>\<open>extract_tables\<close>, no dataset is returned and the connection stays open.
\<close>

theorem row_count_only_logged:
  "(select_star db' = select_star db \<and> fetch_fault db' = fetch_fault db
      \<and> list_all (\<lambda>t. \<not> isl (count_star db t) \<and> \<not> isl (count_star db' t)) table_names
     \<longrightarrow> outcome (extract_tables db') = outcome (extract_tables db))
   \<and> (list_ex (\<lambda>t. isl (count_star db t)) table_names
     \<longrightarrow> isl (outcome (extract_tables db)) \<and> \<not> conn_closed (extract_tables db))"
proof (intro conjI impI)
  assume h: "select_star db' = select_star db \<and> fetch_fault db' = fetch_fault db
      \<and> list_all (\<lambda>t. \<not> isl (count_star db t) \<and> \<not> isl (count_star db' t)) table_names"
  have "fst (extract_loop db' 100000 table_names [] []) = fst (extract_loop db 100000 table_names [] [])"
  proof (rule fst_extract_loop_msgs)
    fix t msgs msgs' assume "t \<in> set table_names"
    with h show "fst (extract_table db' 100000 t msgs') = fst (extract_table db 100000 t msgs)"
      by (intro extract_table_count_irrelevant) (simp_all add: list_all_iff)
  qed
  then show "outcome (extract_tables db') = outcome (extract_tables db)"
    by (cases "extract_loop db' 100000 table_names [] []"; cases "extract_loop db 100000 table_names [] []")
       (auto simp: extract_tables_def extract_tables_with_def split: sum.splits)
next
  assume "list_ex (\<lambda>t. isl (count_star db t)) table_names"
  then obtain t where t: "t \<in> set table_names" "isl (count_star db t)"
    by (auto simp: list_ex_iff)
  then have "read_raises db 100000 t"
    by (cases "count_star db t") (simp_all add: read_raises_def)
  with t have "\<exists>t\<in>set table_names. read_raises db 100000 t" by blast
  from extract_loop_raises [OF this, of "[]" "[]"] obtain e where
    e: "fst (extract_loop db 100000 table_names [] []) = Inl e" by blast
  then show "isl (outcome (extract_tables db))"
    by (cases "extract_loop db 100000 table_names [] []")
       (simp add: extract_tables_def extract_tables_with_def)
  from e show "\<not> conn_closed (extract_tables db)"
    by (cases "extract_loop db 100000 table_names [] []")
       (simp add: extract_tables_def extract_tables_with_def)
qed

lemmas extractor_defs = extract_tables_def extract_tables_with_def table_names_def
  extract_table_def read_sql_query_chunks_def fetch_chunks.simps from_records_def
  column_of_values_def float_of_int_def round53_def to_dict_records_def py_dict_def
  upt_conv_Cons

text \<open>
  C5 as stated fails: a column holding the INTEGER 1 and a NULL is read as \<^verbatim>\<open>int64\<close>
  and \<^verbatim>\<open>object\<close> columns when each row is a batch of its own (output 1 and 0), and as
  one \<^verbatim>\<open>float64\<close> column when both rows are in one batch (output 1.0 and 0.0).
\<close>

theorem extract_table_depends_on_batch_size:
  "wf_cursor \<lparr>description = [''qty''], fetched_rows = [[SqlInteger 1], [SqlNull]]\<rparr>
   \<and> fst (extract_table
        \<lparr>count_star = (\<lambda>t. Inr 2),
         select_star = (\<lambda>t. Inr \<lparr>description = [''qty''], fetched_rows = [[SqlInteger 1], [SqlNull]]\<rparr>),
         fetch_fault = (\<lambda>t. None)\<rparr> 1 ''tb_encounter'' [])
     = Inr [[(''qty'', PyInt 1)], [(''qty'', PyInt 0)]]
   \<and> fst (extract_table
        \<lparr>count_star = (\<lambda>t. Inr 2),
         select_star = (\<lambda>t. Inr \<lparr>description = [''qty''], fetched_rows = [[SqlInteger 1], [SqlNull]]\<rparr>),
         fetch_fault = (\<lambda>t. None)\<rparr> 1000 ''tb_encounter'' [])
     = Inr [[(''qty'', PyFloat (Finite 1))], [(''qty'', PyFloat (Finite 0))]]"
  by (simp add: extractor_defs cleaner_defs wf_cursor_def)

theorem extract_table_preserves_rows_witness:
  "wf_cursor \<lparr>description = [''id'', ''name''],
      fetched_rows = [[SqlInteger 1, SqlText ''ann''], [SqlInteger 2, SqlNull]]\<rparr>
   \<and> fst (extract_table
        \<lparr>count_star = (\<lambda>t. Inr 2),
         select_star = (\<lambda>t. Inr \<lparr>description = [''id'', ''name''],
            fetched_rows = [[SqlInteger 1, SqlText ''ann''], [SqlInteger 2, SqlNull]]\<rparr>),
         fetch_fault = (\<lambda>t. None)\<rparr> 100000 ''tb_encounter'' [])
     = Inr [[(''id'', PyInt 1), (''name'', PyStr ''ann'')], [(''id'', PyInt 2), (''name'', PyInt 0)]]"
  using extract_table_preserves_rows [of "\<lparr>count_star = (\<lambda>t. Inr 2),
         select_star = (\<lambda>t. Inr \<lparr>description = [''id'', ''name''],
            fetched_rows = [[SqlInteger 1, SqlText ''ann''], [SqlInteger 2, SqlNull]]\<rparr>),
         fetch_fault = (\<lambda>t. None)\<rparr>" "''tb_encounter''" 2
       "\<lparr>description = [''id'', ''name''],
            fetched_rows = [[SqlInteger 1, SqlText ''ann''], [SqlInteger 2, SqlNull]]\<rparr>" 100000 "[]"]
  by (simp add: extractor_defs cleaner_defs wf_cursor_def)

theorem extract_table_batch_invariant_witness:
  "wf_cursor \<lparr>description = [''id'', ''note''],
      fetched_rows = [[SqlInteger 1, SqlText ''a''], [SqlInteger 2, SqlNull], [SqlInteger 3, SqlText ''c'']]\<rparr>
   \<and> stable_columns \<lparr>description = [''id'', ''note''],
      fetched_rows = [[SqlInteger 1, SqlText ''a''], [SqlInteger 2, SqlNull], [SqlInteger 3, SqlText ''c'']]\<rparr>
   \<and> fst (extract_table
        \<lparr>count_star = (\<lambda>t. Inr 3),
         select_star = (\<lambda>t. Inr \<lparr>description = [''id'', ''note''],
      fetched_rows = [[SqlInteger 1, SqlText ''a''], [SqlInteger 2, SqlNull], [SqlInteger 3, SqlText ''c'']]\<rparr>),
         fetch_fault = (\<lambda>t. None)\<rparr> 1 ''tb_encounter'' [])
     = Inr [[(''id'', PyInt 1), (''note'', PyStr ''a'')], [(''id'', PyInt 2), (''note'', PyInt 0)],
            [(''id'', PyInt 3), (''note'', PyStr ''c'')]]
   \<and> fst (extract_table
        \<lparr>count_star = (\<lambda>t. Inr 3),
         select_star = (\<lambda>t. Inr \<lparr>description = [''id'', ''note''],
      fetched_rows = [[SqlInteger 1, SqlText ''a''], [SqlInteger 2, SqlNull], [SqlInteger 3, SqlText ''c'']]\<rparr>),
         fetch_fault = (\<lambda>t. None)\<rparr> 1000 ''tb_encounter'' [])
     = Inr [[(''id'', PyInt 1), (''note'', PyStr ''a'')], [(''id'', PyInt 2), (''note'', PyInt 0)],
            [(''id'', PyInt 3), (''note'', PyStr ''c'')]]"
  using extract_table_batch_invariant [of "\<lparr>count_star = (\<lambda>t. Inr 3),
         select_star = (\<lambda>t. Inr \<lparr>description = [''id'', ''note''],
      fetched_rows = [[SqlInteger 1, SqlText ''a''], [SqlInteger 2, SqlNull], [SqlInteger 3, SqlText ''c'']]\<rparr>),
         fetch_fault = (\<lambda>t. None)\<rparr>" "''tb_encounter''" 3
       "\<lparr>description = [''id'', ''note''],
      fetched_rows = [[SqlInteger 1, SqlText ''a''], [SqlInteger 2, SqlNull], [SqlInteger 3, SqlText ''c'']]\<rparr>"
       1 "[]" 1000]
  by (simp add: extractor_defs cleaner_defs wf_cursor_def stable_columns_def column_values_def
        numeric_classes_def)

text \<open>
  C6 as stated fails: when the row-count query raises, \<^verbatim>\<open>extract_tables\<close> raises at the
  first table although its rows could be read; with the count obtained, the same rows
  are extracted.
\<close>

theorem row_count_failure_aborts:
  "extract_tables
     \<lparr>count_star = (\<lambda>t. Inl DatabaseError),
      select_star = (\<lambda>t. Inr \<lparr>description = [''id''], fetched_rows = [[SqlInteger 1]]\<rparr>),
      fetch_fault = (\<lambda>t. None)\<rparr>
   = \<lparr>outcome = Inl DatabaseError, conn_closed = False,
      logged = [ProcessingTable ''tb_emr_surgery_info'']\<rparr>
   \<and> outcome (extract_tables
     \<lparr>count_star = (\<lambda>t. Inr 1),
      select_star = (\<lambda>t. Inr \<lparr>description = [''id''], fetched_rows = [[SqlInteger 1]]\<rparr>),
      fetch_fault = (\<lambda>t. None)\<rparr>)
   = Inr [(''tb_emr_surgery_info'', [[(''id'', PyInt 1)]]), (''tb_encounter'', [[(''id'', PyInt 1)]]),
          (''tb_person_mtr'', [[(''id'', PyInt 1)]]),
          (''tb_mig_implant_description'', [[(''id'', PyInt 1)]])]"
  by (simp add: extractor_defs cleaner_defs)

theorem row_count_only_logged_witness:
  "outcome (extract_tables
     \<lparr>count_star = (\<lambda>t. Inr 1),
      select_star = (\<lambda>t. Inr \<lparr>description = [''id''], fetched_rows = [[SqlInteger 1]]\<rparr>),
      fetch_fault = (\<lambda>t. None)\<rparr>)
   = outcome (extract_tables
     \<lparr>count_star = (\<lambda>t. Inr 999),
      select_star = (\<lambda>t. Inr \<lparr>description = [''id''], fetched_rows = [[SqlInteger 1]]\<rparr>),
      fetch_fault = (\<lambda>t. None)\<rparr>)
   \<and> isl (outcome (extract_tables
     \<lparr>count_star = (\<lambda>t. if t = ''tb_person_mtr'' then Inl DatabaseError else Inr 1),
      select_star = (\<lambda>t. Inr \<lparr>description = [''id''], fetched_rows = [[SqlInteger 1]]\<rparr>),
      fetch_fault = (\<lambda>t. None)\<rparr>))"
  using row_count_only_logged [of "\<lparr>count_star = (\<lambda>t. Inr 1),
      select_star = (\<lambda>t. Inr \<lparr>description = [''id''], fetched_rows = [[SqlInteger 1]]\<rparr>),
      fetch_fault = (\<lambda>t. None)\<rparr>"
      "\<lparr>count_star = (\<lambda>t. Inr 999),
      select_star = (\<lambda>t. Inr \<lparr>description = [''id''], fetched_rows = [[SqlInteger 1]]\<rparr>),
      fetch_fault = (\<lambda>t. None)\<rparr>"]
    row_count_only_logged [of "\<lparr>count_star = (\<lambda>t. if t = ''tb_person_mtr'' then Inl DatabaseError else Inr 1),
      select_star = (\<lambda>t. Inr \<lparr>description = [''id''], fetched_rows = [[SqlInteger 1]]\<rparr>),
      fetch_fault = (\<lambda>t. None)\<rparr>"
      "\<lparr>count_star = (\<lambda>t. if t = ''tb_person_mtr'' then Inl DatabaseError else Inr 1),
      select_star = (\<lambda>t. Inr \<lparr>description = [''id''], fetched_rows = [[SqlInteger 1]]\<rparr>),
      fetch_fault = (\<lambda>t. None)\<rparr>"]
  by (simp add: table_names_def)

theorem conn_closed_only_on_success_witness:
  "extract_tables
     \<lparr>count_star = (\<lambda>t. Inr 1),
      select_star = (\<lambda>t. Inr \<lparr>description = [''id''], fetched_rows = [[SqlInteger 1]]\<rparr>),
      fetch_fault = (\<lambda>t. if t = ''tb_encounter'' then Some 1 else None)\<rparr>
   = \<lparr>outcome = Inl DatabaseError, conn_closed = False,
      logged = [ProcessingTable ''tb_emr_surgery_info'', TotalRows ''tb_emr_surgery_info'' 1,
                ProcessedRows 1 ''tb_emr_surgery_info'',
                ProcessingTable ''tb_encounter'', TotalRows ''tb_encounter'' 1,
                ProcessedRows 1 ''tb_encounter'']\<rparr>
   \<and> conn_closed (extract_tables
     \<lparr>count_star = (\<lambda>t. Inr 1),
      select_star = (\<lambda>t. Inr \<lparr>description = [''id''], fetched_rows = [[SqlInteger 1]]\<rparr>),
      fetch_fault = (\<lambda>t. None)\<rparr>)"
  using conn_closed_only_on_success [of "\<lparr>count_star = (\<lambda>t. Inr 1),
      select_star = (\<lambda>t. Inr \<lparr>description = [''id''], fetched_rows = [[SqlInteger 1]]\<rparr>),
      fetch_fault = (\<lambda>t. if t = ''tb_encounter'' then Some 1 else None)\<rparr>"]
    conn_closed_only_on_success [of "\<lparr>count_star = (\<lambda>t. Inr 1),
      select_star = (\<lambda>t. Inr \<lparr>description = [''id''], fetched_rows = [[SqlInteger 1]]\<rparr>),
      fetch_fault = (\<lambda>t. None)\<rparr>"]
  by (simp add: extractor_defs cleaner_defs read_raises_def)

text \<open>
  The batches that \<^verbatim>\<open>read_sql_query\<close> builds are well formed and free of dtype
  inference, so the statements about the Cleaner apply to every batch the Extractor
  hands to it.
\<close>

lemma keeps_object_column_of_values: "keeps_object (column_of_values vs)"
proof (cases "list_all is_number_or_null vs")
  case True
  show ?thesis
  proof (cases "list_ex is_number vs")
    case ex: True
    with True show ?thesis by (simp add: column_of_values_def)
  next
    case False
    have "isna (py_of_sql v)" if "v \<in> set vs" for v
      by (cases v) (use that True False in \<open>auto simp: list_all_iff list_ex_iff\<close>)
    then show ?thesis
      by (auto simp: column_of_values_def list_all_iff)
  qed
next
  case False
  then obtain v where v: "v \<in> set vs" "\<not> is_number_or_null v"
    by (auto simp: list_all_iff)
  have "is_str_or_bytes (py_of_sql v)"
    by (cases v) (use v in auto)
  with v have "list_ex is_str_or_bytes (map py_of_sql vs)"
    by (auto simp: list_ex_iff)
  then show ?thesis
    by (simp add: column_of_values_def)
qed

lemma from_records_inference_free: "inference_free (from_records names data)"
  by (simp add: inference_free_def from_records_def list_all_iff keeps_object_column_of_values
        case_prod_unfold)

lemma series_len_column_of_values: "series_len (column_of_values vs) = length vs"
  by (simp add: column_of_values_def)

lemma wf_from_records: "distinct names \<Longrightarrow> wf_dataframe (from_records names data)"
  by (simp add: wf_dataframe_def names_from_records)
     (simp add: from_records_def list_all_iff series_len_column_of_values case_prod_unfold)

end
